theory Spec2Isabelle
  imports Main "HOL-Library.Word"
begin

unbundle bit_operations_syntax

section \<open>The JVMTI and JNI types used by the agent\<close>

text \<open>
  \<^verbatim>\<open>jint\<close> is a signed 32-bit integer and \<^verbatim>\<open>jlocation\<close> a signed 64-bit one; their signed
  value is read with \<open>sint\<close>. \<^verbatim>\<open>jmethodID\<close> and \<^verbatim>\<open>jclass\<close> are opaque handles that the
  agent only passes on and compares.
\<close>

type_synonym jint = "32 word"
type_synonym jlocation = "64 word"
type_synonym jmethodID = nat
type_synonym jclass = nat

text \<open>
  The values of \<^verbatim>\<open>jvmtiError\<close> that \<^verbatim>\<open>method_locals.cc\<close> tells apart, and one constructor
  for every other error code.
\<close>

datatype jvmtiError =
    JVMTI_ERROR_NONE
  | JVMTI_ERROR_ABSENT_INFORMATION
  | JVMTI_ERROR_NATIVE_METHOD
  | JVMTI_ERROR_OTHER nat

text \<open>
  \<^verbatim>\<open>jvmtiLocalVariableEntry\<close>. The generic signature is a \<^verbatim>\<open>char*\<close> that JVMTI leaves null
  when the variable has none. The field \<^verbatim>\<open>length\<close> is called \<open>length_v\<close> here.
\<close>

record jvmtiLocalVariableEntry =
  start_location :: jlocation
  length_v :: jint
  name :: string
  signature :: string
  generic_signature :: "string option"
  slot :: jint

text \<open>
  Modelled from the spec: \<^verbatim>\<open>JvmLocalVariableReader\<close> is declared in
  \<^verbatim>\<open>jvm_local_variable_reader.h\<close>, which is not among the sources. The spec's local-variable
  descriptor holds the name, the signatures, the slot and the range of validity (here the
  raw table entry the constructor is given) and the is-argument flag, and is immutable
  once constructed.
\<close>

record LocalVariableReader =
  lv_entry :: jvmtiLocalVariableEntry
  is_argument :: bool

definition JvmLocalVariableReader :: "jvmtiLocalVariableEntry \<Rightarrow> bool \<Rightarrow> LocalVariableReader" where
  "JvmLocalVariableReader e a = \<lparr>lv_entry = e, is_argument = a\<rparr>"

text \<open>
  \<^verbatim>\<open>MethodLocals::Entry\<close>: \<^verbatim>\<open>local_instance\<close> is a \<^verbatim>\<open>unique_ptr\<close> that may be null,
  \<^verbatim>\<open>locals\<close> a vector. \<open>Entry_new\<close> is what \<^verbatim>\<open>new Entry\<close> constructs.
\<close>

record Entry =
  local_instance :: "LocalVariableReader option"
  locals :: "LocalVariableReader list"

definition Entry_new :: Entry where
  "Entry_new = \<lparr>local_instance = None, locals = []\<rparr>"

text \<open>
  The JVMTI functions that \<^verbatim>\<open>method_locals.cc\<close> calls, as the answers the runtime gives:
  the error code and the values written to the out-parameters (read by the caller only
  when the error code allows it). \<^verbatim>\<open>GetLocalVariableTable\<close> answers with the table, whose
  length is the \<^verbatim>\<open>num_entries\<close> it reports.
\<close>

record jvmtiEnv =
  GetMethodDeclaringClass :: "jmethodID \<Rightarrow> jvmtiError \<times> jclass"
  GetMethodModifiers :: "jmethodID \<Rightarrow> jvmtiError \<times> jint"
  GetClassSignature :: "jclass \<Rightarrow> jvmtiError \<times> string \<times> string option"
  GetLocalVariableTable :: "jmethodID \<Rightarrow> jvmtiError \<times> jvmtiLocalVariableEntry list"
  GetArgumentsSize :: "jmethodID \<Rightarrow> jvmtiError \<times> jint"

text \<open>
  \<^verbatim>\<open>LocalVariablesVisibilityPolicy::IsLocalVariablesDebuggerVisible(cls, method)\<close>. The
  constructor of \<^verbatim>\<open>MethodLocals\<close> takes a pointer to a policy, which may be null: an option.
\<close>

type_synonym LocalVariablesVisibilityPolicy = "jclass \<Rightarrow> jmethodID \<Rightarrow> bool"

text \<open>
  \<^verbatim>\<open>JVM_ACC_STATIC\<close> comes from the JDK's \<^verbatim>\<open>classfile_constants.h\<close>: the access flag 0x0008.
\<close>

definition JVM_ACC_STATIC :: jint where
  "JVM_ACC_STATIC = 0x0008"

section \<open>Events\<close>

text \<open>
  What the code does to the outside, recorded in program order: each JVMTI call with the
  error code it returned, what happens to the mutex \<^verbatim>\<open>mu_\<close> and to the map
  \<^verbatim>\<open>method_vars_\<close>, each call of \<^verbatim>\<open>LoadEntry\<close>, and each call to a collaborator of
  \<^verbatim>\<open>Debugger\<close> whose code is not among the sources.
\<close>

datatype event =
    Jvmti_GetMethodDeclaringClass jmethodID jvmtiError
  | Jvmti_GetMethodModifiers jmethodID jvmtiError
  | Jvmti_GetClassSignature jclass jvmtiError
  | Jvmti_GetLocalVariableTable jmethodID jvmtiError
  | Jvmti_GetArgumentsSize jmethodID jvmtiError
  | MutexLock_mu
  | MutexUnlock_mu
  | Map_find jmethodID
  | Map_insert jmethodID
  | Map_erase jmethodID
  | Call_LoadEntry jmethodID
  | EvalCallStack_JvmtiOnCompiledMethodUnload jmethodID
  | BreakpointsManager_JvmtiOnCompiledMethodUnload jmethodID
  | BreakpointsManager_Cleanup
  | ClassIndexer_Cleanup

section \<open>MethodLocals::LoadLocalInstance\<close>

text \<open>The result is the reader (null: \<open>None\<close>) and the JVMTI calls made, in order.\<close>

definition LoadLocalInstance ::
  "jvmtiEnv \<Rightarrow> jclass \<Rightarrow> jmethodID \<Rightarrow> LocalVariableReader option \<times> event list" where
  "LoadLocalInstance jvmti cls method =
     (case GetMethodModifiers jvmti method of
        (err, method_modifiers) \<Rightarrow>
          if err \<noteq> JVMTI_ERROR_NONE then (None, [Jvmti_GetMethodModifiers method err])
          else if (method_modifiers AND JVM_ACC_STATIC) \<noteq> 0
          then (None, [Jvmti_GetMethodModifiers method err])
          else
            (case GetClassSignature jvmti cls of
               (err2, class_signature, class_generic) \<Rightarrow>
                 if err2 \<noteq> JVMTI_ERROR_NONE
                 then (None, [Jvmti_GetMethodModifiers method err, Jvmti_GetClassSignature cls err2])
                 else
                   (Some (JvmLocalVariableReader
                      \<lparr>start_location = 0,
                       length_v = - 1,
                       name = ''this'',
                       signature = class_signature,
                       generic_signature = class_generic,
                       slot = 0\<rparr>
                      True),
                    [Jvmti_GetMethodModifiers method err, Jvmti_GetClassSignature cls err2])))"

section \<open>MethodLocals::LoadEntry\<close>

text \<open>
  The loop of lines 126 to 133: one \<^verbatim>\<open>push_back\<close> for each entry of the table, in the order
  of the table. The comparison of the two \<^verbatim>\<open>jint\<close> values is signed.
\<close>

fun push_locals :: "jint \<Rightarrow> jvmtiLocalVariableEntry list \<Rightarrow> Entry \<Rightarrow> Entry" where
  "push_locals arguments_size [] entry = entry"
| "push_locals arguments_size (local_variable_entry # table) entry =
     push_locals arguments_size table
       (entry\<lparr>locals := locals entry @
          [JvmLocalVariableReader local_variable_entry
             (sint (slot local_variable_entry) < sint arguments_size)]\<rparr>)"

text \<open>
  The condition of lines 85 to 88: a policy is configured (the pointer is not null) and
  \<^verbatim>\<open>IsLocalVariablesDebuggerVisible(cls, method)\<close> is false.
\<close>

definition visibility_denied ::
  "LocalVariablesVisibilityPolicy option \<Rightarrow> jclass \<Rightarrow> jmethodID \<Rightarrow> bool" where
  "visibility_denied local_variables_visibility_policy cls method =
     (case local_variables_visibility_policy of
        None \<Rightarrow> False
      | Some policy \<Rightarrow> \<not> policy cls method)"

text \<open>
  Lines 114 to 124: \<^verbatim>\<open>GetArgumentsSize\<close> is called only when \<^verbatim>\<open>num_entries > 0\<close>, that is
  when the table is not empty. The result is \<^verbatim>\<open>arguments_size\<close> and the call made, if any.
\<close>

definition arguments_size_of ::
  "jvmtiEnv \<Rightarrow> jmethodID \<Rightarrow> jvmtiLocalVariableEntry list \<Rightarrow> jint \<times> event list" where
  "arguments_size_of jvmti method table =
     (if table \<noteq> [] then
        (case GetArgumentsSize jvmti method of
           (err, size_v) \<Rightarrow>
             (if err \<noteq> JVMTI_ERROR_NONE then 0 else size_v,
              [Jvmti_GetArgumentsSize method err]))
      else (0, []))"

text \<open>
  Lines 72 to 135, on the object \<^verbatim>\<open>entry\<close> that line 70 has allocated. In the first
  component \<open>None\<close> is \<^verbatim>\<open>return nullptr\<close> and \<open>Some e\<close> is \<^verbatim>\<open>return entry\<close> with \<open>e\<close> what the
  object then holds; the second lists the JVMTI calls made, in order.
\<close>

definition LoadEntry_fill ::
  "jvmtiEnv \<Rightarrow> LocalVariablesVisibilityPolicy option \<Rightarrow> jmethodID \<Rightarrow> Entry \<Rightarrow>
     Entry option \<times> event list" where
  "LoadEntry_fill jvmti local_variables_visibility_policy method entry0 =
     (case GetMethodDeclaringClass jvmti method of
        (err, cls) \<Rightarrow>
          if err \<noteq> JVMTI_ERROR_NONE then (None, [Jvmti_GetMethodDeclaringClass method err])
          else
            (case LoadLocalInstance jvmti cls method of
               (instance, calls_instance) \<Rightarrow>
                 let entry = entry0\<lparr>local_instance := instance\<rparr>;
                     calls1 = Jvmti_GetMethodDeclaringClass method err # calls_instance
                 in
                 if visibility_denied local_variables_visibility_policy cls method
                 then (Some entry, calls1)
                 else
                   (case GetLocalVariableTable jvmti method of
                      (err, table) \<Rightarrow>
                        let calls2 = calls1 @ [Jvmti_GetLocalVariableTable method err] in
                        if err \<noteq> JVMTI_ERROR_NONE \<and>
                           err \<noteq> JVMTI_ERROR_ABSENT_INFORMATION \<and>
                           err \<noteq> JVMTI_ERROR_NATIVE_METHOD
                        then (None, calls2)
                        else if err \<noteq> JVMTI_ERROR_NONE then (Some entry, calls2)
                        else
                          (case arguments_size_of jvmti method table of
                             (arguments_size, calls_size) \<Rightarrow>
                               (Some (push_locals arguments_size table entry),
                                calls2 @ calls_size)))))"

section \<open>The state the cache lives in\<close>

text \<open>
  An \<open>entry_ptr\<close> names one allocation of an \<^verbatim>\<open>Entry\<close> (one \<^verbatim>\<open>new Entry\<close>): the allocator hands
  out \<open>next_ptr\<close> and never hands a name out twice, so two pointers are equal exactly when
  they are the same instance. \<open>heap\<close> holds the objects that are alive. An \<^verbatim>\<open>Entry\<close> whose
  only \<^verbatim>\<open>shared_ptr\<close> is a local or temporary going out of scope is deleted; one that was
  returned to a caller or stored in the map stays, since a caller may still hold it.
  \<open>method_vars\<close> is the member \<^verbatim>\<open>method_vars_\<close>, a \<^verbatim>\<open>std::map\<close> from \<^verbatim>\<open>jmethodID\<close> to
  \<^verbatim>\<open>shared_ptr<Entry>\<close>.

  \<open>trace\<close> is the list of events so far.
\<close>

type_synonym entry_ptr = nat

record world =
  heap :: "entry_ptr \<rightharpoonup> Entry"
  next_ptr :: entry_ptr
  method_vars :: "jmethodID \<rightharpoonup> entry_ptr"
  trace :: "event list"

text \<open>The state after the constructors: nothing allocated, an empty map.\<close>

definition world_init :: world where
  "world_init = \<lparr>heap = Map.empty, next_ptr = 0, method_vars = Map.empty, trace = []\<rparr>"

definition emit :: "event list \<Rightarrow> world \<Rightarrow> world" where
  "emit es w = w\<lparr>trace := trace w @ es\<rparr>"

text \<open>\<^verbatim>\<open>std::shared_ptr<Entry>(new Entry)\<close>, and the deletion of an object nobody holds.\<close>

definition new_Entry :: "world \<Rightarrow> entry_ptr \<times> world" where
  "new_Entry w =
     (next_ptr w,
      w\<lparr>heap := (heap w)(next_ptr w \<mapsto> Entry_new), next_ptr := Suc (next_ptr w)\<rparr>)"

definition delete_Entry :: "entry_ptr \<Rightarrow> world \<Rightarrow> world" where
  "delete_Entry p w = w\<lparr>heap := (heap w)(p := None)\<rparr>"

text \<open>
  \<^verbatim>\<open>LoadEntry\<close>: line 70 allocates the entry, lines 72 to 135 fill it. On \<^verbatim>\<open>return nullptr\<close>
  the local \<^verbatim>\<open>entry\<close> was the only owner, so the object is deleted.
\<close>

definition LoadEntry ::
  "jvmtiEnv \<Rightarrow> LocalVariablesVisibilityPolicy option \<Rightarrow> jmethodID \<Rightarrow> world \<Rightarrow>
     entry_ptr option \<times> world" where
  "LoadEntry jvmti local_variables_visibility_policy method w =
     (case new_Entry (emit [Call_LoadEntry method] w) of
        (entry, w1) \<Rightarrow>
          (case LoadEntry_fill jvmti local_variables_visibility_policy method Entry_new of
             (None, calls) \<Rightarrow> (None, emit calls (delete_Entry entry w1))
           | (Some e, calls) \<Rightarrow> (Some entry, emit calls (w1\<lparr>heap := (heap w1)(entry \<mapsto> e)\<rparr>))))"

section \<open>MethodLocals::GetLocalVariables and MethodLocals::JvmtiOnCompiledMethodUnload\<close>

text \<open>
  Case 1, lines 41 to 48: the block that holds \<^verbatim>\<open>reader_lock\<close>. The result is what \<^verbatim>\<open>find\<close>
  gave: \<open>Some p\<close> for a hit (the function returns \<open>p\<close>), \<open>None\<close> for \<^verbatim>\<open>end()\<close>.
\<close>

definition find_cached :: "jmethodID \<Rightarrow> world \<Rightarrow> entry_ptr option \<times> world" where
  "find_cached method w =
     (method_vars w method, emit [MutexLock_mu, Map_find method, MutexUnlock_mu] w)"

text \<open>
  Lines 57 to 62: under \<^verbatim>\<open>writer_lock\<close>, \<^verbatim>\<open>std::map::insert\<close> stores the pair only when the
  map has no element with this key, and \<^verbatim>\<open>in.first\<close> is the element the map then has for
  the key. When the key was present the temporary pair was the only owner of \<^verbatim>\<open>locals\<close>,
  so that object is deleted.
\<close>

definition insert_loaded :: "jmethodID \<Rightarrow> entry_ptr \<Rightarrow> world \<Rightarrow> entry_ptr \<times> world" where
  "insert_loaded method locals_p w =
     (case method_vars w method of
        None \<Rightarrow>
          (locals_p,
           emit [MutexLock_mu, Map_insert method, MutexUnlock_mu]
             (w\<lparr>method_vars := (method_vars w)(method \<mapsto> locals_p)\<rparr>))
      | Some present \<Rightarrow>
          (present,
           emit [MutexLock_mu, Map_insert method, MutexUnlock_mu]
             (delete_Entry locals_p w)))"

definition GetLocalVariables ::
  "jvmtiEnv \<Rightarrow> LocalVariablesVisibilityPolicy option \<Rightarrow> jmethodID \<Rightarrow> world \<Rightarrow>
     entry_ptr \<times> world" where
  "GetLocalVariables jvmti local_variables_visibility_policy method w =
     (case find_cached method w of
        (Some it_method_vars, w1) \<Rightarrow> (it_method_vars, w1)
      | (None, w1) \<Rightarrow>
          (case LoadEntry jvmti local_variables_visibility_policy method w1 of
             (None, w2) \<Rightarrow> new_Entry w2
           | (Some locals_p, w2) \<Rightarrow> insert_loaded method locals_p w2))"

text \<open>Lines 33 to 35: the body is the one statement \<^verbatim>\<open>method_vars_.erase(method)\<close>.\<close>

definition JvmtiOnCompiledMethodUnload :: "jmethodID \<Rightarrow> world \<Rightarrow> world" where
  "JvmtiOnCompiledMethodUnload method w =
     emit [Map_erase method] (w\<lparr>method_vars := (method_vars w)(method := None)\<rparr>)"

section \<open>Debugger\<close>

text \<open>
  Modelled from the spec: the call-stack tracker, the breakpoints manager and the class
  indexer are not among the sources. By the spec each evicts or cleans up its own state,
  so a call to one of them is recorded in the trace and leaves the cache alone.
\<close>

definition Debugger_JvmtiOnCompiledMethodUnload :: "jmethodID \<Rightarrow> world \<Rightarrow> world" where
  "Debugger_JvmtiOnCompiledMethodUnload method w =
     emit [BreakpointsManager_JvmtiOnCompiledMethodUnload method]
       (JvmtiOnCompiledMethodUnload method
         (emit [EvalCallStack_JvmtiOnCompiledMethodUnload method] w))"

text \<open>The body of \<^verbatim>\<open>Debugger::~Debugger\<close>, lines 86 to 89.\<close>

definition Debugger_destructor :: "world \<Rightarrow> world" where
  "Debugger_destructor w = emit [ClassIndexer_Cleanup] (emit [BreakpointsManager_Cleanup] w)"

section \<open>Calls in sequence and calls in parallel\<close>

text \<open>
  One caller calls \<^verbatim>\<open>GetLocalVariables(method)\<close> once for each element of the list, the
  runtime answering the introspection calls of the k-th call as the k-th element says.
  The result lists what the calls returned, in order.
\<close>

fun GetLocalVariables_calls ::
  "LocalVariablesVisibilityPolicy option \<Rightarrow> jmethodID \<Rightarrow> jvmtiEnv list \<Rightarrow> world \<Rightarrow>
     entry_ptr list \<times> world" where
  "GetLocalVariables_calls pol method [] w = ([], w)"
| "GetLocalVariables_calls pol method (jvmti # rest) w =
     (case GetLocalVariables jvmti pol method w of
        (p, w1) \<Rightarrow>
          (case GetLocalVariables_calls pol method rest w1 of
             (ps, w2) \<Rightarrow> (p # ps, w2)))"

text \<open>
  Threads inside \<^verbatim>\<open>GetLocalVariables\<close>. The two blocks that hold \<^verbatim>\<open>mu_\<close> exclude each
  other, so each is one step; \<^verbatim>\<open>LoadEntry\<close> runs with no lock held and touches only the
  object it has allocated, so it is one step too. A thread is at the start of the call,
  between the miss and the load, between a successful load and the insertion, or has
  returned: from line 46 (hit), line 54 (failure) or line 62 (after the insertion).
\<close>

datatype thread =
    At_start jmethodID
  | Missed jmethodID
  | Loaded jmethodID entry_ptr
  | Returned_hit entry_ptr
  | Returned_failure entry_ptr
  | Returned_inserted entry_ptr

inductive step ::
  "LocalVariablesVisibilityPolicy option \<Rightarrow> world \<times> thread list \<Rightarrow> world \<times> thread list \<Rightarrow> bool"
  for pol :: "LocalVariablesVisibilityPolicy option" where
  hit:
    "i < length ts \<Longrightarrow> ts ! i = At_start m \<Longrightarrow> find_cached m w = (Some p, w') \<Longrightarrow>
       step pol (w, ts) (w', ts[i := Returned_hit p])"
| miss:
    "i < length ts \<Longrightarrow> ts ! i = At_start m \<Longrightarrow> find_cached m w = (None, w') \<Longrightarrow>
       step pol (w, ts) (w', ts[i := Missed m])"
| load_failed:
    "i < length ts \<Longrightarrow> ts ! i = Missed m \<Longrightarrow> LoadEntry jvmti pol m w = (None, w1) \<Longrightarrow>
       new_Entry w1 = (p, w') \<Longrightarrow>
       step pol (w, ts) (w', ts[i := Returned_failure p])"
| loaded:
    "i < length ts \<Longrightarrow> ts ! i = Missed m \<Longrightarrow> LoadEntry jvmti pol m w = (Some locals_p, w') \<Longrightarrow>
       step pol (w, ts) (w', ts[i := Loaded m locals_p])"
| inserted:
    "i < length ts \<Longrightarrow> ts ! i = Loaded m locals_p \<Longrightarrow> insert_loaded m locals_p w = (p, w') \<Longrightarrow>
       step pol (w, ts) (w', ts[i := Returned_inserted p])"

section \<open>Well-formed states and orderings of events\<close>

text \<open>
  A state is well formed when every live object was handed out by the allocator and the
  map points to live objects only. \<open>world_init\<close> is well formed, and
  \<^verbatim>\<open>GetLocalVariables\<close>, the unload handlers and the destructor keep a state so.
\<close>

definition wf_world :: "world \<Rightarrow> bool" where
  "wf_world w \<longleftrightarrow>
     (\<forall>p. p \<in> dom (heap w) \<longrightarrow> p < next_ptr w) \<and> ran (method_vars w) \<subseteq> dom (heap w)"

text \<open>
  What holds of every thread while any number of threads are inside
  \<^verbatim>\<open>GetLocalVariables(H)\<close>: a thread that has loaded an entry and not yet inserted it holds
  a live object that is not in the map and that no other thread holds; a thread that
  returned from the hit or after the insertion returned what the map has for \<open>H\<close>; a
  thread that returned after a failed load returned an empty object that is not in the
  map and that no thread is about to insert.
\<close>

fun thread_inv :: "jmethodID \<Rightarrow> world \<Rightarrow> thread list \<Rightarrow> nat \<Rightarrow> thread \<Rightarrow> bool" where
  "thread_inv H w ts i (At_start m) = (m = H)"
| "thread_inv H w ts i (Missed m) = (m = H)"
| "thread_inv H w ts i (Loaded m p) =
     (m = H \<and> p \<in> dom (heap w) \<and> p \<notin> ran (method_vars w) \<and>
      (\<forall>j < length ts. j \<noteq> i \<longrightarrow> (\<forall>m'. ts ! j \<noteq> Loaded m' p)))"
| "thread_inv H w ts i (Returned_hit p) = (method_vars w H = Some p)"
| "thread_inv H w ts i (Returned_failure p) =
     (heap w p = Some Entry_new \<and> p \<notin> ran (method_vars w) \<and>
      (\<forall>j < length ts. \<forall>m'. ts ! j \<noteq> Loaded m' p))"
| "thread_inv H w ts i (Returned_inserted p) = (method_vars w H = Some p)"

definition race_invariant :: "jmethodID \<Rightarrow> world \<Rightarrow> thread list \<Rightarrow> bool" where
  "race_invariant H w ts \<longleftrightarrow>
     wf_world w \<and> (\<forall>i < length ts. thread_inv H w ts i (ts ! i))"

text \<open>The events an operation has added to the trace of \<open>w\<close> when it ends in \<open>w'\<close>.\<close>

definition events_since :: "world \<Rightarrow> world \<Rightarrow> event list" where
  "events_since w w' = drop (length (trace w)) (trace w')"

text \<open>
  \<open>precedes a b es\<close>: \<open>a\<close> occurs in \<open>es\<close>, \<open>b\<close> occurs after the first \<open>a\<close>, and no \<open>b\<close> occurs
  before it.
\<close>

fun precedes :: "event \<Rightarrow> event \<Rightarrow> event list \<Rightarrow> bool" where
  "precedes a b [] = False"
| "precedes a b (e # es) =
     (if e = b then False else if e = a then b \<in> set es else precedes a b es)"

text \<open>
  \<open>mutex_discipline held es\<close>: every access to the map in \<open>es\<close> happens while \<^verbatim>\<open>mu_\<close> is held, and
  every call of \<^verbatim>\<open>LoadEntry\<close> and every JVMTI call while it is not; \<open>held\<close> says whether
  the mutex is held at the start.
\<close>

fun mutex_discipline :: "bool \<Rightarrow> event list \<Rightarrow> bool" where
  "mutex_discipline held [] = True"
| "mutex_discipline held (MutexLock_mu # es) = (\<not> held \<and> mutex_discipline True es)"
| "mutex_discipline held (MutexUnlock_mu # es) = (held \<and> mutex_discipline False es)"
| "mutex_discipline held (Map_find m # es) = (held \<and> mutex_discipline held es)"
| "mutex_discipline held (Map_insert m # es) = (held \<and> mutex_discipline held es)"
| "mutex_discipline held (Map_erase m # es) = (held \<and> mutex_discipline held es)"
| "mutex_discipline held (Call_LoadEntry m # es) = (\<not> held \<and> mutex_discipline held es)"
| "mutex_discipline held (Jvmti_GetMethodDeclaringClass m err # es) =
     (\<not> held \<and> mutex_discipline held es)"
| "mutex_discipline held (Jvmti_GetMethodModifiers m err # es) =
     (\<not> held \<and> mutex_discipline held es)"
| "mutex_discipline held (Jvmti_GetClassSignature c err # es) =
     (\<not> held \<and> mutex_discipline held es)"
| "mutex_discipline held (Jvmti_GetLocalVariableTable m err # es) =
     (\<not> held \<and> mutex_discipline held es)"
| "mutex_discipline held (Jvmti_GetArgumentsSize m err # es) =
     (\<not> held \<and> mutex_discipline held es)"
| "mutex_discipline held (e # es) = mutex_discipline held es"

section \<open>Example inputs\<close>

text \<open>
  A method 7 of class 3 that is not static, with a table of four variables in the slots
  0 to 3, the first two of them arguments; and the same method when
  \<^verbatim>\<open>GetLocalVariableTable\<close> returns an error.
\<close>

definition table_example :: "jvmtiLocalVariableEntry list" where
  "table_example =
     [\<lparr>start_location = 0, length_v = 20, name = ''a'', signature = ''I'',
        generic_signature = None, slot = 0\<rparr>,
      \<lparr>start_location = 0, length_v = 20, name = ''b'', signature = ''J'',
        generic_signature = None, slot = 1\<rparr>,
      \<lparr>start_location = 4, length_v = 16, name = ''c'', signature = ''I'',
        generic_signature = None, slot = 2\<rparr>,
      \<lparr>start_location = 8, length_v = 12, name = ''d'', signature = ''Z'',
        generic_signature = None, slot = 3\<rparr>]"

definition jvmti_example :: jvmtiEnv where
  "jvmti_example =
     \<lparr>GetMethodDeclaringClass = (\<lambda>m. (JVMTI_ERROR_NONE, 3)),
      GetMethodModifiers = (\<lambda>m. (JVMTI_ERROR_NONE, 1)),
      GetClassSignature = (\<lambda>c. (JVMTI_ERROR_NONE, ''LFoo;'', None)),
      GetLocalVariableTable = (\<lambda>m. (JVMTI_ERROR_NONE, table_example)),
      GetArgumentsSize = (\<lambda>m. (JVMTI_ERROR_NONE, 2))\<rparr>"

definition jvmti_table_error :: "jvmtiError \<Rightarrow> jvmtiEnv" where
  "jvmti_table_error err = jvmti_example\<lparr>GetLocalVariableTable := (\<lambda>m. (err, []))\<rparr>"

text \<open>
  A policy that hides the local variables of every method; the method when it is static
  (\<^verbatim>\<open>public static\<close>, modifiers 9), when \<^verbatim>\<open>GetClassSignature\<close> fails, and when
  \<^verbatim>\<open>GetArgumentsSize\<close> fails.
\<close>

definition policy_deny_all :: LocalVariablesVisibilityPolicy where
  "policy_deny_all cls m = False"

definition jvmti_static :: jvmtiEnv where
  "jvmti_static = jvmti_example\<lparr>GetMethodModifiers := (\<lambda>m. (JVMTI_ERROR_NONE, 9))\<rparr>"

definition jvmti_signature_error :: jvmtiEnv where
  "jvmti_signature_error =
     jvmti_example\<lparr>GetClassSignature := (\<lambda>c. (JVMTI_ERROR_OTHER 21, [], None))\<rparr>"

definition jvmti_size_error :: jvmtiEnv where
  "jvmti_size_error =
     jvmti_example\<lparr>GetArgumentsSize := (\<lambda>m. (JVMTI_ERROR_OTHER 23, 0))\<rparr>"

text \<open>The method when \<^verbatim>\<open>GetMethodDeclaringClass\<close> fails.\<close>

definition jvmti_class_error :: jvmtiEnv where
  "jvmti_class_error =
     jvmti_example\<lparr>GetMethodDeclaringClass := (\<lambda>m. (JVMTI_ERROR_OTHER 23, 0))\<rparr>"

text \<open>The state after one call of \<^verbatim>\<open>GetLocalVariables\<close> for a method 8 on a new cache.\<close>

definition world_example :: world where
  "world_example = snd (GetLocalVariables jvmti_example None 8 world_init)"

text \<open>
  Two threads that call \<^verbatim>\<open>GetLocalVariables(7)\<close> on a new cache at the same time: both
  miss, both load (the entries 0 and 1), then the first inserts its entry, then the
  second.
\<close>

definition race_missed :: world where
  "race_missed = snd (find_cached 7 (snd (find_cached 7 world_init)))"

definition race_loaded :: world where
  "race_loaded =
     snd (LoadEntry jvmti_example None 7 (snd (LoadEntry jvmti_example None 7 race_missed)))"

definition race_first_inserted :: world where
  "race_first_inserted = snd (insert_loaded 7 0 race_loaded)"

definition race_second_inserted :: world where
  "race_second_inserted = snd (insert_loaded 7 1 race_first_inserted)"

section \<open>Lemmas\<close>

lemma push_locals_map:
  "push_locals n table entry =
     entry\<lparr>locals := locals entry @
       map (\<lambda>e. JvmLocalVariableReader e (sint (slot e) < sint n)) table\<rparr>"
  by (induction table arbitrary: entry) simp_all

lemma LoadEntry_failed:
  assumes "fst (LoadEntry_fill jvmti pol method Entry_new) = None"
  shows "LoadEntry jvmti pol method w =
    (None, w\<lparr>next_ptr := Suc (next_ptr w), heap := (heap w)(next_ptr w := None),
       trace := trace w @ Call_LoadEntry method # snd (LoadEntry_fill jvmti pol method Entry_new)\<rparr>)"
  using assms
  by (cases "LoadEntry_fill jvmti pol method Entry_new")
     (simp add: LoadEntry_def new_Entry_def emit_def delete_Entry_def)

lemma LoadEntry_loaded:
  assumes "fst (LoadEntry_fill jvmti pol method Entry_new) = Some e"
  shows "LoadEntry jvmti pol method w =
    (Some (next_ptr w), w\<lparr>next_ptr := Suc (next_ptr w), heap := (heap w)(next_ptr w \<mapsto> e),
       trace := trace w @ Call_LoadEntry method # snd (LoadEntry_fill jvmti pol method Entry_new)\<rparr>)"
  using assms
  by (cases "LoadEntry_fill jvmti pol method Entry_new")
     (simp add: LoadEntry_def new_Entry_def emit_def delete_Entry_def)

lemma LoadEntry_fst:
  "fst (LoadEntry jvmti pol method w) = None \<longleftrightarrow> fst (LoadEntry_fill jvmti pol method Entry_new) = None"
  by (cases "fst (LoadEntry_fill jvmti pol method Entry_new)")
     (simp_all add: LoadEntry_failed LoadEntry_loaded)

lemma LoadEntry_events:
  "events_since w (snd (LoadEntry jvmti pol method w)) =
     Call_LoadEntry method # snd (LoadEntry_fill jvmti pol method Entry_new)"
  by (cases "fst (LoadEntry_fill jvmti pol method Entry_new)")
     (simp_all add: LoadEntry_failed LoadEntry_loaded events_since_def)

lemma LoadLocalInstance_calls:
  "set (snd (LoadLocalInstance jvmti cls method)) \<subseteq>
     range (Jvmti_GetMethodModifiers method) \<union> range (Jvmti_GetClassSignature cls)"
  by (auto simp: LoadLocalInstance_def split: prod.splits)

lemma arguments_size_of_calls:
  "set (snd (arguments_size_of jvmti method table)) \<subseteq> range (Jvmti_GetArgumentsSize method)"
  by (auto simp: arguments_size_of_def split: prod.splits)

text \<open>The call of GetMethodDeclaringClass is always made; the table call under a condition.\<close>

lemma LoadEntry_fill_class_call:
  "Jvmti_GetMethodDeclaringClass m err \<in> set (snd (LoadEntry_fill jvmti pol method entry0)) \<longleftrightarrow>
     m = method \<and> err = fst (GetMethodDeclaringClass jvmti method)"
  using LoadLocalInstance_calls [of jvmti "snd (GetMethodDeclaringClass jvmti method)" "method"]
    arguments_size_of_calls [of jvmti "method" "snd (GetLocalVariableTable jvmti method)"]
  by (auto simp: LoadEntry_fill_def Let_def split: prod.splits)

lemma LoadEntry_fill_table_call:
  "Jvmti_GetLocalVariableTable m err \<in> set (snd (LoadEntry_fill jvmti pol method entry0)) \<longleftrightarrow>
     m = method \<and> err = fst (GetLocalVariableTable jvmti method) \<and>
     fst (GetMethodDeclaringClass jvmti method) = JVMTI_ERROR_NONE \<and>
     \<not> visibility_denied pol (snd (GetMethodDeclaringClass jvmti method)) method"
  using LoadLocalInstance_calls [of jvmti "snd (GetMethodDeclaringClass jvmti method)" "method"]
    arguments_size_of_calls [of jvmti "method" "snd (GetLocalVariableTable jvmti method)"]
  by (auto simp: LoadEntry_fill_def Let_def split: prod.splits)

lemma LoadEntry_fill_None_iff:
  "fst (LoadEntry_fill jvmti pol method entry0) = None \<longleftrightarrow>
     fst (GetMethodDeclaringClass jvmti method) \<noteq> JVMTI_ERROR_NONE \<or>
     (\<not> visibility_denied pol (snd (GetMethodDeclaringClass jvmti method)) method \<and>
      fst (GetLocalVariableTable jvmti method) \<noteq> JVMTI_ERROR_NONE \<and>
      fst (GetLocalVariableTable jvmti method) \<noteq> JVMTI_ERROR_ABSENT_INFORMATION \<and>
      fst (GetLocalVariableTable jvmti method) \<noteq> JVMTI_ERROR_NATIVE_METHOD)"
  by (auto simp: LoadEntry_fill_def Let_def split: prod.splits)


lemma LoadEntry_fill_Some_cases:
  assumes "fst (LoadEntry_fill jvmti pol method entry0) = Some e"
  shows "local_instance e =
      fst (LoadLocalInstance jvmti (snd (GetMethodDeclaringClass jvmti method)) method) \<and>
    locals e = locals entry0 @
      (if visibility_denied pol (snd (GetMethodDeclaringClass jvmti method)) method \<or>
          fst (GetLocalVariableTable jvmti method) \<noteq> JVMTI_ERROR_NONE
       then []
       else map (\<lambda>v. JvmLocalVariableReader v
              (sint (slot v) <
               sint (fst (arguments_size_of jvmti method (snd (GetLocalVariableTable jvmti method))))))
            (snd (GetLocalVariableTable jvmti method)))"
  using assms
  by (auto simp: LoadEntry_fill_def Let_def push_locals_map split: prod.splits if_splits)

lemma LoadEntry_result:
  assumes "LoadEntry jvmti pol method w = (r, w1)"
  shows "events_since w w1 = Call_LoadEntry method # snd (LoadEntry_fill jvmti pol method Entry_new)"
    and "fst (LoadEntry_fill jvmti pol method Entry_new) = None \<Longrightarrow> r = None"
    and "fst (LoadEntry_fill jvmti pol method Entry_new) = Some e \<Longrightarrow>
           r = Some (next_ptr w) \<and> heap w1 (next_ptr w) = Some e"
  using assms LoadEntry_events [of w jvmti pol "method"]
  by (auto simp: LoadEntry_failed LoadEntry_loaded)

lemma GetLocalVariables_hit:
  assumes "method_vars w method = Some p"
  shows "GetLocalVariables jvmti pol method w =
    (p, w\<lparr>trace := trace w @ [MutexLock_mu, Map_find method, MutexUnlock_mu]\<rparr>)"
  using assms by (simp add: GetLocalVariables_def find_cached_def emit_def)

lemma GetLocalVariables_failed:
  assumes "method_vars w method = None"
    and "fst (LoadEntry_fill jvmti pol method Entry_new) = None"
  shows "GetLocalVariables jvmti pol method w =
    (Suc (next_ptr w),
     w\<lparr>next_ptr := Suc (Suc (next_ptr w)),
       heap := (heap w)(next_ptr w := None, Suc (next_ptr w) \<mapsto> Entry_new),
       trace := trace w @ [MutexLock_mu, Map_find method, MutexUnlock_mu] @
         Call_LoadEntry method # snd (LoadEntry_fill jvmti pol method Entry_new)\<rparr>)"
  using assms
  by (simp add: GetLocalVariables_def find_cached_def LoadEntry_failed new_Entry_def emit_def)

lemma GetLocalVariables_loaded:
  assumes "method_vars w method = None"
    and "fst (LoadEntry_fill jvmti pol method Entry_new) = Some e"
  shows "GetLocalVariables jvmti pol method w =
    (next_ptr w,
     w\<lparr>next_ptr := Suc (next_ptr w),
       heap := (heap w)(next_ptr w \<mapsto> e),
       method_vars := (method_vars w)(method \<mapsto> next_ptr w),
       trace := trace w @ [MutexLock_mu, Map_find method, MutexUnlock_mu] @
         Call_LoadEntry method # snd (LoadEntry_fill jvmti pol method Entry_new) @
         [MutexLock_mu, Map_insert method, MutexUnlock_mu]\<rparr>)"
  using assms
  by (simp add: GetLocalVariables_def find_cached_def LoadEntry_loaded insert_loaded_def emit_def)

lemma LoadEntry_fill_denied:
  assumes "GetMethodDeclaringClass jvmti method = (JVMTI_ERROR_NONE, cls)"
    and "visibility_denied pol cls method"
  shows "LoadEntry_fill jvmti pol method entry0 =
     (Some (entry0\<lparr>local_instance := fst (LoadLocalInstance jvmti cls method)\<rparr>),
      Jvmti_GetMethodDeclaringClass method JVMTI_ERROR_NONE #
        snd (LoadLocalInstance jvmti cls method))"
  using assms by (auto simp: LoadEntry_fill_def Let_def split: prod.splits)

lemma LoadEntry_fill_locals_indep:
  "map_option locals
     (fst (LoadEntry_fill (jvmti\<lparr>GetMethodModifiers := mm, GetClassSignature := cs\<rparr>) pol
        method entry0)) =
   map_option locals (fst (LoadEntry_fill jvmti pol method entry0))"
  by (auto simp: LoadEntry_fill_def LoadLocalInstance_def arguments_size_of_def Let_def push_locals_map
      split: prod.splits if_splits)

lemmas example_defs =
  jvmti_table_error_def jvmti_example_def table_example_def world_init_def

lemmas load_defs =
  LoadEntry_fill_def LoadLocalInstance_def arguments_size_of_def visibility_denied_def
  JVM_ACC_STATIC_def Entry_new_def JvmLocalVariableReader_def

lemma events_since_trace [simp]:
  "events_since w (w'\<lparr>trace := trace w @ es\<rparr>) = es"
  by (simp add: events_since_def)

lemma LoadEntry_fill_unlocked:
  "mutex_discipline False (snd (LoadEntry_fill jvmti pol method entry0) @ es) =
     mutex_discipline False es"
  by (auto simp: LoadEntry_fill_def LoadLocalInstance_def arguments_size_of_def Let_def
      split: prod.splits)

lemma GetLocalVariables_events:
  "events_since w (snd (GetLocalVariables jvmti pol method w)) =
     [MutexLock_mu, Map_find method, MutexUnlock_mu] @
     (if method_vars w method = None
      then Call_LoadEntry method # snd (LoadEntry_fill jvmti pol method Entry_new) @
        (if fst (LoadEntry_fill jvmti pol method Entry_new) = None then []
         else [MutexLock_mu, Map_insert method, MutexUnlock_mu])
      else [])"
proof (cases "method_vars w method")
  case None
  then show ?thesis
    by (cases "fst (LoadEntry_fill jvmti pol method Entry_new)")
       (simp_all add: GetLocalVariables_failed GetLocalVariables_loaded)
next
  case (Some p)
  then show ?thesis by (simp add: GetLocalVariables_hit)
qed

lemma GetLocalVariables_mutex_discipline:
  "mutex_discipline False (events_since w (snd (GetLocalVariables jvmti pol method w)))"
  by (simp add: GetLocalVariables_events LoadEntry_fill_unlocked
      LoadEntry_fill_unlocked [where es = "[]", simplified])

lemma wf_world_live:
  assumes "wf_world w" and "p \<in> dom (heap w)"
  shows "p < next_ptr w"
  using assms unfolding wf_world_def by blast

lemma wf_world_cached:
  assumes "wf_world w" and "method_vars w m = Some q"
  shows "q \<in> dom (heap w)" and "q < next_ptr w"
proof -
  from assms(2) have "q \<in> ran (method_vars w)"
    by (rule ranI)
  with assms(1) show "q \<in> dom (heap w)"
    unfolding wf_world_def by blast
  with assms(1) show "q < next_ptr w"
    by (rule wf_world_live)
qed

lemma wf_world_fresh:
  assumes "wf_world w" and "next_ptr w \<le> p"
  shows "p \<notin> dom (heap w)" and "p \<notin> ran (method_vars w)"
proof -
  show "p \<notin> dom (heap w)"
    using wf_world_live [OF assms(1), of p] assms(2) by auto
  then show "p \<notin> ran (method_vars w)"
    using assms(1) unfolding wf_world_def by blast
qed

lemma GetLocalVariables_result:
  "GetLocalVariables jvmti pol method w =
     (case method_vars w method of
        Some p \<Rightarrow> (p, emit [MutexLock_mu, Map_find method, MutexUnlock_mu] w)
      | None \<Rightarrow>
          (case fst (LoadEntry_fill jvmti pol method Entry_new) of
             None \<Rightarrow>
               (Suc (next_ptr w),
                w\<lparr>next_ptr := Suc (Suc (next_ptr w)),
                  heap := (heap w)(next_ptr w := None, Suc (next_ptr w) \<mapsto> Entry_new),
                  trace := trace w @ [MutexLock_mu, Map_find method, MutexUnlock_mu] @
                    Call_LoadEntry method # snd (LoadEntry_fill jvmti pol method Entry_new)\<rparr>)
           | Some e \<Rightarrow>
               (next_ptr w,
                w\<lparr>next_ptr := Suc (next_ptr w),
                  heap := (heap w)(next_ptr w \<mapsto> e),
                  method_vars := (method_vars w)(method \<mapsto> next_ptr w),
                  trace := trace w @ [MutexLock_mu, Map_find method, MutexUnlock_mu] @
                    Call_LoadEntry method # snd (LoadEntry_fill jvmti pol method Entry_new) @
                    [MutexLock_mu, Map_insert method, MutexUnlock_mu]\<rparr>)))"
  by (simp add: GetLocalVariables_hit GetLocalVariables_failed GetLocalVariables_loaded emit_def
      split: option.splits)

lemma world_example_cache:
  "method_vars world_example = [8 \<mapsto> 0]" "next_ptr world_example = 1"
  "dom (heap world_example) = {0}"
  by (simp_all add: world_example_def GetLocalVariables_result load_defs example_defs
      push_locals_map)

lemma wf_world_example: "wf_world world_example"
  by (simp add: wf_world_def world_example_cache)

lemma wf_world_init: "wf_world world_init"
  by (simp add: wf_world_def world_init_def)

lemma wf_world_emit:
  "wf_world (emit es w) = wf_world w"
  by (simp add: wf_world_def emit_def)

lemma wf_world_JvmtiOnCompiledMethodUnload:
  assumes "wf_world w"
  shows "wf_world (JvmtiOnCompiledMethodUnload method w)"
proof -
  have "ran ((method_vars w)(method := None)) \<subseteq> ran (method_vars w)"
    by (auto simp: ran_def split: if_splits)
  with assms show ?thesis
    by (auto simp: wf_world_def JvmtiOnCompiledMethodUnload_def emit_def)
qed

lemma wf_world_Debugger:
  assumes "wf_world w"
  shows "wf_world (Debugger_JvmtiOnCompiledMethodUnload method w)"
    and "wf_world (Debugger_destructor w)"
  using assms wf_world_JvmtiOnCompiledMethodUnload [of "emit es w" for es]
  by (simp_all add: Debugger_JvmtiOnCompiledMethodUnload_def Debugger_destructor_def
      wf_world_emit)

lemma wf_world_GetLocalVariables:
  assumes "wf_world w"
  shows "wf_world (snd (GetLocalVariables jvmti pol method w))"
proof -
  have fresh: "next_ptr w \<notin> ran (method_vars w)" "Suc (next_ptr w) \<notin> ran (method_vars w)"
    using wf_world_fresh(2) [OF assms] by simp_all
  have live: "p < next_ptr w" if "p \<in> dom (heap w)" for p
    using wf_world_live [OF assms that] .
  have cached: "ran (method_vars w) \<subseteq> dom (heap w)"
    using assms by (simp add: wf_world_def)
  show ?thesis
  proof (cases "method_vars w method")
    case (Some p)
    with assms show ?thesis
      by (simp add: GetLocalVariables_hit wf_world_def)
  next
    case None
    show ?thesis
    proof (cases "fst (LoadEntry_fill jvmti pol method Entry_new)")
      case None
      with \<open>method_vars w method = None\<close> fresh live cached show ?thesis
        by (auto simp: GetLocalVariables_failed wf_world_def less_Suc_eq dest: live)
    next
      case (Some e)
      have "ran ((method_vars w)(method \<mapsto> next_ptr w)) \<subseteq> insert (next_ptr w) (ran (method_vars w))"
        by (auto simp: ran_def)
      with Some \<open>method_vars w method = None\<close> live cached show ?thesis
        by (auto simp: GetLocalVariables_loaded wf_world_def less_Suc_eq dest: live)
    qed
  qed
qed

lemma GetLocalVariables_calls_append:
  "GetLocalVariables_calls pol method (xs @ ys) w =
     (case GetLocalVariables_calls pol method xs w of
        (ps, w1) \<Rightarrow>
          (case GetLocalVariables_calls pol method ys w1 of
             (qs, w2) \<Rightarrow> (ps @ qs, w2)))"
  by (induction xs arbitrary: w) (simp_all split: prod.splits)

lemma GetLocalVariables_calls_failing:
  assumes "wf_world w" and "method_vars w method = None"
    and "\<forall>jvmti \<in> set failing. fst (LoadEntry_fill jvmti pol method Entry_new) = None"
    and "GetLocalVariables_calls pol method failing w = (ps, w1)"
  shows "wf_world w1 \<and> method_vars w1 = method_vars w \<and> length ps = length failing \<and>
    next_ptr w \<le> next_ptr w1 \<and>
    (\<forall>q. q < next_ptr w \<longrightarrow> heap w1 q = heap w q) \<and>
    (\<forall>p \<in> set ps. next_ptr w \<le> p \<and> p < next_ptr w1 \<and> heap w1 p = Some Entry_new)"
  using assms
proof (induction failing arbitrary: w ps)
  case Nil
  then show ?case by simp
next
  case (Cons jvmti rest)
  let ?w' = "snd (GetLocalVariables jvmti pol method w)"
  from Cons.prems(3) have f: "fst (LoadEntry_fill jvmti pol method Entry_new) = None"
    and rest: "\<forall>jvmti \<in> set rest. fst (LoadEntry_fill jvmti pol method Entry_new) = None"
    by simp_all
  note g = GetLocalVariables_failed [OF Cons.prems(2) f]
  have wf': "wf_world ?w'"
    by (rule wf_world_GetLocalVariables [OF Cons.prems(1)])
  have miss': "method_vars ?w' method = None"
    using Cons.prems(2) by (simp add: g)
  obtain qs where qs: "GetLocalVariables_calls pol method rest ?w' = (qs, w1)"
    and ps: "ps = Suc (next_ptr w) # qs"
    using Cons.prems(4) by (auto simp: g split: prod.splits)
  note ih = Cons.IH [OF wf' miss' rest qs]
  have n': "next_ptr ?w' = Suc (Suc (next_ptr w))"
    and h': "heap ?w' = (heap w)(next_ptr w := None, Suc (next_ptr w) \<mapsto> Entry_new)"
    and m': "method_vars ?w' = method_vars w"
    by (simp_all add: g)
  have old: "heap w1 q = heap w q" if "q < next_ptr w" for q
    using ih that by (simp add: n' h')
  have new: "heap w1 (Suc (next_ptr w)) = Some Entry_new"
    using ih by (simp add: n' h')
  from ih old new show ?case
    by (auto simp: ps n' m')
qed


lemma LoadEntry_fill_examples:
  "fst (LoadEntry_fill (jvmti_table_error (JVMTI_ERROR_OTHER 113)) None 7 Entry_new) = None"
  "fst (LoadEntry_fill jvmti_class_error None 7 Entry_new) = None"
  "fst (LoadEntry_fill jvmti_example None 7 Entry_new) \<noteq> None"
  by (simp_all add: LoadEntry_fill_None_iff visibility_denied_def jvmti_class_error_def
      example_defs)




lemma GetLocalVariables_failed_call:
  assumes "wf_world w" and "method_vars w method = None"
    and f: "fst (LoadEntry_fill jvmti pol method Entry_new) = None"
    and G: "GetLocalVariables jvmti pol method w = (p, w1)"
  shows "p \<notin> dom (heap w)" and "heap w1 p = Some Entry_new"
    and "method_vars w1 = method_vars w" and "p \<notin> ran (method_vars w1)"
    and "Call_LoadEntry method \<in>
       set (events_since w1 (snd (GetLocalVariables jvmti' pol method w1)))"
proof -
  from G GetLocalVariables_failed [OF assms(2) f]
  have p: "p = Suc (next_ptr w)" and obj: "heap w1 p = Some Entry_new"
    and cache: "method_vars w1 = method_vars w"
    by auto
  from wf_world_fresh [OF assms(1), of p]
  have fresh: "p \<notin> dom (heap w)" "p \<notin> ran (method_vars w)"
    by (simp_all add: p)
  show "p \<notin> dom (heap w)" by (rule fresh)
  show "heap w1 p = Some Entry_new" by (rule obj)
  show "method_vars w1 = method_vars w" by (rule cache)
  show "p \<notin> ran (method_vars w1)" using fresh by (simp add: cache)
  have "method_vars w1 method = None"
    using assms(2) by (simp add: cache)
  then show "Call_LoadEntry method \<in>
       set (events_since w1 (snd (GetLocalVariables jvmti' pol method w1)))"
    by (simp add: GetLocalVariables_events)
qed


lemma ran_upd_subset:
  "ran (m(k \<mapsto> v)) \<subseteq> insert v (ran m)"
  by (auto simp: ran_def)

lemma GetLocalVariables_calls_then_loaded:
  assumes "wf_world w" and "method_vars w method = None"
    and "\<forall>jvmti \<in> set failing. fst (LoadEntry_fill jvmti pol method Entry_new) = None"
    and "fst (LoadEntry_fill ok pol method Entry_new) = Some e"
    and all: "GetLocalVariables_calls pol method (failing @ [ok]) w = (ps, w')"
  shows "length ps = Suc (length failing)"
    and "method_vars w' = (method_vars w)(method \<mapsto> last ps)"
    and "heap w' (last ps) = Some e"
    and "\<forall>p \<in> set (butlast ps).
           p \<noteq> last ps \<and> p \<notin> dom (heap w) \<and> heap w' p = Some Entry_new \<and>
           p \<notin> ran (method_vars w')"
proof -
  obtain qs w1 where qs: "GetLocalVariables_calls pol method failing w = (qs, w1)"
    by (cases "GetLocalVariables_calls pol method failing w")
  note inv = GetLocalVariables_calls_failing [OF assms(1,2,3) qs]
  from inv have wf1: "wf_world w1" and same: "method_vars w1 = method_vars w"
    and len: "length qs = length failing"
    by simp_all
  from same assms(2) have miss1: "method_vars w1 method = None"
    by simp
  note last_call = GetLocalVariables_loaded [OF miss1 assms(4)]
  from all have ps: "ps = qs @ [next_ptr w1]"
    and w': "method_vars w' = (method_vars w1)(method \<mapsto> next_ptr w1)"
      "heap w' = (heap w1)(next_ptr w1 \<mapsto> e)"
    unfolding GetLocalVariables_calls_append qs by (auto simp: last_call)
  show "length ps = Suc (length failing)"
    by (simp add: ps len)
  show "method_vars w' = (method_vars w)(method \<mapsto> last ps)"
    by (simp add: ps w' same)
  show "heap w' (last ps) = Some e"
    by (simp add: ps w')
  show "\<forall>p \<in> set (butlast ps).
           p \<noteq> last ps \<and> p \<notin> dom (heap w) \<and> heap w' p = Some Entry_new \<and>
           p \<notin> ran (method_vars w')"
  proof
    fix p assume "p \<in> set (butlast ps)"
    then have "p \<in> set qs"
      by (simp add: ps)
    with inv have b: "next_ptr w \<le> p" "p < next_ptr w1" "heap w1 p = Some Entry_new"
      by auto
    have "p \<notin> ran (method_vars w1)"
      using wf_world_fresh(2) [OF assms(1) b(1)] by (simp add: same)
    with ran_upd_subset [of "method_vars w1" "method" "next_ptr w1"] b(2)
    have "p \<notin> ran (method_vars w')"
      unfolding w' by auto
    with b wf_world_fresh(1) [OF assms(1) b(1)]
    show "p \<noteq> last ps \<and> p \<notin> dom (heap w) \<and> heap w' p = Some Entry_new \<and>
           p \<notin> ran (method_vars w')"
      by (simp add: ps w')
  qed
qed


subsection \<open>Threads\<close>

lemma race_invariant_init:
  assumes "wf_world w"
  shows "race_invariant H w (replicate n (At_start H))"
  using assms by (simp add: race_invariant_def)

lemma thread_inv_trace:
  "thread_inv H (emit es w) ts i t = thread_inv H w ts i t"
  by (cases t) (simp_all add: emit_def)

lemma race_invariant_emit:
  "race_invariant H (emit es w) ts = race_invariant H w ts"
  by (simp add: race_invariant_def thread_inv_trace wf_world_emit)

text \<open>A thread that leaves a state other than Loaded for one other than Loaded, the
  world unchanged.\<close>

lemma thread_inv_update_plain:
  assumes "thread_inv H w ts k t" and "i < length ts"
    and "\<forall>m p. new \<noteq> Loaded m p"
  shows "thread_inv H w (ts[i := new]) k t"
  using assms by (cases t) (auto simp: nth_list_update)

lemma race_invariant_plain:
  assumes inv: "race_invariant H w ts" and i: "i < length ts"
    and new: "\<forall>m p. new \<noteq> Loaded m p" and ok: "thread_inv H w (ts[i := new]) i new"
  shows "race_invariant H w (ts[i := new])"
proof -
  have "thread_inv H w (ts[i := new]) k (ts[i := new] ! k)" if "k < length ts" for k
  proof (cases "k = i")
    case True
    with i ok show ?thesis by simp
  next
    case False
    from inv that have "thread_inv H w ts k (ts ! k)"
      by (simp add: race_invariant_def)
    from thread_inv_update_plain [OF this i new] False show ?thesis
      by simp
  qed
  with inv show ?thesis
    by (simp add: race_invariant_def)
qed

lemma race_invariant_thread:
  assumes "race_invariant H w ts" and "i < length ts"
  shows "thread_inv H w ts i (ts ! i)" and "wf_world w"
  using assms by (simp_all add: race_invariant_def)

lemma race_invariant_hit:
  assumes inv: "race_invariant H w ts" and i: "i < length ts" and at: "ts ! i = At_start m"
    and f: "find_cached m w = (Some p, w')"
  shows "race_invariant H w' (ts[i := Returned_hit p])"
proof -
  from race_invariant_thread(1) [OF inv i] at have m: "m = H"
    by simp
  from f have w': "w' = emit [MutexLock_mu, Map_find m, MutexUnlock_mu] w"
    and hit: "method_vars w m = Some p"
    by (auto simp: find_cached_def)
  show ?thesis
    unfolding w' race_invariant_emit
    by (rule race_invariant_plain [OF inv i]) (simp_all add: hit [unfolded m])
qed

lemma race_invariant_miss:
  assumes inv: "race_invariant H w ts" and i: "i < length ts" and at: "ts ! i = At_start m"
    and f: "find_cached m w = (None, w')"
  shows "race_invariant H w' (ts[i := Missed m])"
proof -
  from race_invariant_thread(1) [OF inv i] at have m: "m = H"
    by simp
  from f have w': "w' = emit [MutexLock_mu, Map_find m, MutexUnlock_mu] w"
    by (auto simp: find_cached_def)
  show ?thesis
    unfolding w' race_invariant_emit
    by (rule race_invariant_plain [OF inv i]) (simp_all add: m)
qed


text \<open>A step that allocates: the map is unchanged, the objects that existed are unchanged,
  and the thread moves to a state that is not Loaded or is Loaded with a new pointer.\<close>

lemma thread_inv_alloc:
  assumes t: "thread_inv H w ts k t" and wf: "wf_world w"
    and cache: "method_vars w' = method_vars w"
    and old: "\<forall>q < next_ptr w. heap w' q = heap w q"
    and i: "i < length ts" and new: "\<forall>m p. new = Loaded m p \<longrightarrow> next_ptr w \<le> p"
  shows "thread_inv H w' (ts[i := new]) k t"
proof (cases t)
  case (Loaded m q)
  with t have q: "q \<in> dom (heap w)"
    by simp
  from wf_world_live [OF wf q] have less: "q < next_ptr w" .
  with old q have "q \<in> dom (heap w')"
    by (auto simp: dom_def)
  moreover from new less have "new \<noteq> Loaded m' q" for m'
    by auto
  ultimately show ?thesis
    using t Loaded i by (auto simp: cache nth_list_update)
next
  case (Returned_failure q)
  with t have "q \<in> dom (heap w)"
    by auto
  from wf_world_live [OF wf this] have less: "q < next_ptr w" .
  with old have "heap w' q = heap w q"
    by simp
  moreover from new less have "new \<noteq> Loaded m' q" for m'
    by auto
  ultimately show ?thesis
    using t Returned_failure i by (auto simp: cache nth_list_update)
qed (use t in \<open>simp_all add: cache\<close>)

lemma race_invariant_alloc:
  assumes inv: "race_invariant H w ts" and i: "i < length ts"
    and wf': "wf_world w'"
    and cache: "method_vars w' = method_vars w"
    and old: "\<forall>q < next_ptr w. heap w' q = heap w q"
    and new: "\<forall>m p. new = Loaded m p \<longrightarrow> next_ptr w \<le> p"
    and ok: "thread_inv H w' (ts[i := new]) i new"
  shows "race_invariant H w' (ts[i := new])"
proof -
  note wf = race_invariant_thread(2) [OF inv i]
  have "thread_inv H w' (ts[i := new]) k (ts[i := new] ! k)" if "k < length ts" for k
  proof (cases "k = i")
    case True
    with i ok show ?thesis by simp
  next
    case False
    from race_invariant_thread(1) [OF inv that]
    have "thread_inv H w' (ts[i := new]) k (ts ! k)"
      by (rule thread_inv_alloc [OF _ wf cache old i new])
    with False show ?thesis by simp
  qed
  with wf' show ?thesis
    by (simp add: race_invariant_def)
qed

lemma loaded_ptr_old:
  assumes inv: "race_invariant H w ts" and j: "j < length ts" and l: "ts ! j = Loaded m q"
  shows "q < next_ptr w"
proof -
  from race_invariant_thread(1) [OF inv j] l have "q \<in> dom (heap w)"
    by simp
  from wf_world_live [OF race_invariant_thread(2) [OF inv j] this] show ?thesis .
qed

lemma wf_world_LoadEntry:
  assumes "wf_world w"
  shows "wf_world (snd (LoadEntry jvmti pol method w))"
proof (cases "fst (LoadEntry_fill jvmti pol method Entry_new)")
  case None
  have "p < Suc (next_ptr w)" if "p \<in> dom (heap w)" for p
    using wf_world_live [OF assms that] by simp
  moreover have "ran (method_vars w) \<subseteq> dom (heap w) - {next_ptr w}"
    using assms wf_world_fresh(2) [OF assms, of "next_ptr w"] by (auto simp: wf_world_def)
  ultimately show ?thesis
    by (auto simp: LoadEntry_failed [OF None] wf_world_def)
next
  case (Some e)
  have "p < Suc (next_ptr w)" if "p \<in> dom (heap w)" for p
    using wf_world_live [OF assms that] by simp
  moreover have "ran (method_vars w) \<subseteq> dom (heap w)"
    using assms by (simp add: wf_world_def)
  ultimately show ?thesis
    by (auto simp: LoadEntry_loaded [OF Some] wf_world_def)
qed

lemma wf_world_new_Entry:
  assumes "wf_world w"
  shows "wf_world (snd (new_Entry w))"
proof -
  have "p < Suc (next_ptr w)" if "p \<in> dom (heap w)" for p
    using wf_world_live [OF assms that] by simp
  moreover have "ran (method_vars w) \<subseteq> dom (heap w)"
    using assms by (simp add: wf_world_def)
  ultimately show ?thesis
    by (auto simp: new_Entry_def wf_world_def)
qed

lemma race_invariant_loaded:
  assumes inv: "race_invariant H w ts" and i: "i < length ts" and at: "ts ! i = Missed m"
    and l: "LoadEntry jvmti pol m w = (Some p, w')"
  shows "race_invariant H w' (ts[i := Loaded m p])"
proof -
  from race_invariant_thread(1) [OF inv i] at have m: "m = H"
    by simp
  note wf = race_invariant_thread(2) [OF inv i]
  from l obtain e where e: "fst (LoadEntry_fill jvmti pol m Entry_new) = Some e"
    using LoadEntry_fst [of jvmti pol m w] by (cases "fst (LoadEntry_fill jvmti pol m Entry_new)") auto
  from l LoadEntry_loaded [OF e, of w]
  have p: "p = next_ptr w" and cache: "method_vars w' = method_vars w"
    and heap: "heap w' = (heap w)(next_ptr w \<mapsto> e)"
    by auto
  from wf_world_LoadEntry [OF wf, of jvmti pol m] l have wf': "wf_world w'"
    by simp
  have others: "ts ! j \<noteq> Loaded m' p" if "j < length ts" for j m'
    using loaded_ptr_old [OF inv that, of m' p] by (auto simp: p)
  show ?thesis
  proof (rule race_invariant_alloc [OF inv i wf' cache])
    show "\<forall>q < next_ptr w. heap w' q = heap w q"
      by (simp add: heap)
    show "\<forall>m' p'. Loaded m p = Loaded m' p' \<longrightarrow> next_ptr w \<le> p'"
      by (simp add: p)
    show "thread_inv H w' (ts[i := Loaded m p]) i (Loaded m p)"
      using wf_world_fresh(2) [OF wf, of p] others i
      by (auto simp: m p cache heap nth_list_update)
  qed
qed

lemma race_invariant_load_failed:
  assumes inv: "race_invariant H w ts" and i: "i < length ts" and at: "ts ! i = Missed m"
    and l: "LoadEntry jvmti pol m w = (None, w1)" and n: "new_Entry w1 = (p, w')"
  shows "race_invariant H w' (ts[i := Returned_failure p])"
proof -
  note wf = race_invariant_thread(2) [OF inv i]
  from l have f: "fst (LoadEntry_fill jvmti pol m Entry_new) = None"
    using LoadEntry_fst [of jvmti pol m w] by simp
  from l LoadEntry_failed [OF f, of w]
  have w1: "next_ptr w1 = Suc (next_ptr w)" "method_vars w1 = method_vars w"
    "heap w1 = (heap w)(next_ptr w := None)"
    by auto
  from n have p: "p = Suc (next_ptr w)" and cache: "method_vars w' = method_vars w"
    and heap: "heap w' = (heap w)(next_ptr w := None, Suc (next_ptr w) \<mapsto> Entry_new)"
    by (auto simp: new_Entry_def w1)
  from wf_world_LoadEntry [OF wf, of jvmti pol m] l have "wf_world w1"
    by simp
  from wf_world_new_Entry [OF this] n have wf': "wf_world w'"
    by simp
  have others: "ts ! j \<noteq> Loaded m' p" if "j < length ts" for j m'
    using loaded_ptr_old [OF inv that, of m' p] by (auto simp: p)
  show ?thesis
  proof (rule race_invariant_alloc [OF inv i wf' cache])
    show "\<forall>q < next_ptr w. heap w' q = heap w q"
      by (simp add: heap)
    show "\<forall>m' p'. Returned_failure p = Loaded m' p' \<longrightarrow> next_ptr w \<le> p'"
      by simp
    show "thread_inv H w' (ts[i := Returned_failure p]) i (Returned_failure p)"
      using wf_world_fresh(2) [OF wf, of p] others i
      by (auto simp: p cache heap nth_list_update)
  qed
qed


lemma insert_loaded_absent:
  assumes "method_vars w m = None"
  shows "insert_loaded m p w =
    (p, emit [MutexLock_mu, Map_insert m, MutexUnlock_mu]
          (w\<lparr>method_vars := (method_vars w)(m \<mapsto> p)\<rparr>))"
  using assms by (simp add: insert_loaded_def)

lemma insert_loaded_present:
  assumes "method_vars w m = Some winner"
  shows "insert_loaded m p w =
    (winner, emit [MutexLock_mu, Map_insert m, MutexUnlock_mu] (delete_Entry p w))"
  using assms by (simp add: insert_loaded_def)

lemma race_invariant_inserted:
  assumes inv: "race_invariant H w ts" and i: "i < length ts" and at: "ts ! i = Loaded m p"
    and ins: "insert_loaded m p w = (r, w')"
  shows "race_invariant H w' (ts[i := Returned_inserted r])"
proof -
  note wf = race_invariant_thread(2) [OF inv i]
  from race_invariant_thread(1) [OF inv i] at
  have m: "m = H" and live: "p \<in> dom (heap w)" and priv: "p \<notin> ran (method_vars w)"
    and uniq: "\<forall>j < length ts. j \<noteq> i \<longrightarrow> (\<forall>m'. ts ! j \<noteq> Loaded m' p)"
    by simp_all
  have other_loaded: "q \<noteq> p" if "k < length ts" "k \<noteq> i" "ts ! k = Loaded m' q" for k m' q
    using uniq that by auto
  have other_failed: "q \<noteq> p"
    if "k < length ts" "ts ! k = Returned_failure q" for k q
    using race_invariant_thread(1) [OF inv that(1)] that(2) i at by auto
  show ?thesis
  proof (cases "method_vars w H")
    case None
    let ?w = "w\<lparr>method_vars := (method_vars w)(H \<mapsto> p)\<rparr>"
    from ins have r: "r = p"
      and w': "w' = emit [MutexLock_mu, Map_insert H, MutexUnlock_mu] ?w"
      by (auto simp: insert_loaded_absent [OF None] m)
    have ran': "q \<notin> ran ((method_vars w)(H \<mapsto> p))"
      if "q \<notin> ran (method_vars w)" "q \<noteq> p" for q
      using that ran_upd_subset [of "method_vars w" H p] by auto
    have wf': "wf_world ?w"
      using wf live ran_upd_subset [of "method_vars w" H p] by (auto simp: wf_world_def)
    have "thread_inv H ?w (ts[i := Returned_inserted r]) k (ts[i := Returned_inserted r] ! k)"
      if k: "k < length ts" for k
    proof (cases "k = i")
      case True
      with i show ?thesis by (simp add: r)
    next
      case False
      note t = race_invariant_thread(1) [OF inv k]
      show ?thesis
      proof (cases "ts ! k")
        case (Loaded m' q)
        with t other_loaded [OF k False Loaded] False i ran' [of q] show ?thesis
          by (auto simp: nth_list_update)
      next
        case (Returned_failure q)
        with t other_failed [OF k Returned_failure] False i ran' [of q] show ?thesis
          by (auto simp: nth_list_update)
      qed (use t None False in \<open>simp_all\<close>)
    qed
    with wf' have "race_invariant H ?w (ts[i := Returned_inserted r])"
      by (simp add: race_invariant_def)
    then show ?thesis
      by (simp add: w' race_invariant_emit)
  next
    case (Some winner)
    let ?w = "delete_Entry p w"
    from ins have r: "r = winner"
      and w': "w' = emit [MutexLock_mu, Map_insert H, MutexUnlock_mu] ?w"
      by (auto simp: insert_loaded_present [OF Some] m)
    have wf': "wf_world ?w"
      using wf priv by (auto simp: wf_world_def delete_Entry_def)
    have "thread_inv H ?w (ts[i := Returned_inserted r]) k (ts[i := Returned_inserted r] ! k)"
      if k: "k < length ts" for k
    proof (cases "k = i")
      case True
      with i Some show ?thesis by (simp add: r delete_Entry_def)
    next
      case False
      note t = race_invariant_thread(1) [OF inv k]
      show ?thesis
      proof (cases "ts ! k")
        case (Loaded m' q)
        with t other_loaded [OF k False Loaded] False i show ?thesis
          by (auto simp: nth_list_update delete_Entry_def)
      next
        case (Returned_failure q)
        with t other_failed [OF k Returned_failure] False i show ?thesis
          by (auto simp: nth_list_update delete_Entry_def)
      qed (use t False in \<open>simp_all add: delete_Entry_def\<close>)
    qed
    with wf' have "race_invariant H ?w (ts[i := Returned_inserted r])"
      by (simp add: race_invariant_def)
    then show ?thesis
      by (simp add: w' race_invariant_emit)
  qed
qed

lemma race_invariant_step:
  assumes "step pol (w, ts) (w', ts')" and "race_invariant H w ts"
  shows "race_invariant H w' ts' \<and> length ts' = length ts"
  using assms(1)
proof (cases rule: step.cases)
  case hit
  with assms(2) show ?thesis by (auto simp: race_invariant_hit)
next
  case miss
  with assms(2) show ?thesis by (auto simp: race_invariant_miss)
next
  case load_failed
  with assms(2) show ?thesis by (auto simp: race_invariant_load_failed)
next
  case loaded
  with assms(2) show ?thesis by (auto simp: race_invariant_loaded)
next
  case inserted
  with assms(2) show ?thesis by (auto simp: race_invariant_inserted)
qed

lemma race_invariant_steps:
  assumes "rtranclp (step pol) c0 c" and "race_invariant H (fst c0) (snd c0)"
  shows "race_invariant H (fst c) (snd c) \<and> length (snd c) = length (snd c0)"
  using assms
proof (induction rule: rtranclp_induct)
  case base
  then show ?case by simp
next
  case (step y z)
  from step.IH [OF step.prems] have y: "race_invariant H (fst y) (snd y)"
    and len: "length (snd y) = length (snd c0)"
    by simp_all
  from step.hyps(2) have "step pol (fst y, snd y) (fst z, snd z)"
    by simp
  from race_invariant_step [OF this y] len show ?case
    by simp
qed


lemma GetLocalVariables_as_steps:
  assumes G: "GetLocalVariables jvmti pol m w = (p, w')"
  shows "rtranclp (step pol) (w, [At_start m]) (w', [Returned_hit p]) \<or>
    rtranclp (step pol) (w, [At_start m]) (w', [Returned_failure p]) \<or>
    rtranclp (step pol) (w, [At_start m]) (w', [Returned_inserted p])"
proof -
  obtain r1 w1 where f: "find_cached m w = (r1, w1)"
    by (cases "find_cached m w")
  show ?thesis
  proof (cases r1)
    case (Some hit_p)
    with G f have "p = hit_p" "w' = w1"
      by (simp_all add: GetLocalVariables_def)
    with f Some step.hit [where i = 0 and ts = "[At_start m]" and m = m and w = w and w' = w1
        and p = hit_p and pol = pol]
    have "step pol (w, [At_start m]) (w', [Returned_hit p])"
      by simp
    then show ?thesis
      by (simp add: r_into_rtranclp)
  next
    case None
    with f step.miss [where i = 0 and ts = "[At_start m]" and m = m and w = w and w' = w1
        and pol = pol]
    have s1: "step pol (w, [At_start m]) (w1, [Missed m])"
      by simp
    obtain r2 w2 where l: "LoadEntry jvmti pol m w1 = (r2, w2)"
      by (cases "LoadEntry jvmti pol m w1")
    show ?thesis
    proof (cases r2)
      case None
      with G f l \<open>r1 = None\<close> have n: "new_Entry w2 = (p, w')"
        by (simp add: GetLocalVariables_def)
      with l None step.load_failed [where i = 0 and ts = "[Missed m]" and m = m and w = w1
          and ?w1.0 = w2 and w' = w' and p = p and pol = pol and jvmti = jvmti]
      have "step pol (w1, [Missed m]) (w', [Returned_failure p])"
        by simp
      with s1 have "rtranclp (step pol) (w, [At_start m]) (w', [Returned_failure p])"
        by (simp add: converse_rtranclp_into_rtranclp)
      then show ?thesis by simp
    next
      case (Some locals_p)
      with G f l \<open>r1 = None\<close> have ins: "insert_loaded m locals_p w2 = (p, w')"
        by (simp add: GetLocalVariables_def)
      from l Some step.loaded [where i = 0 and ts = "[Missed m]" and m = m and w = w1
          and w' = w2 and locals_p = locals_p and pol = pol and jvmti = jvmti]
      have s2: "step pol (w1, [Missed m]) (w2, [Loaded m locals_p])"
        by simp
      from ins step.inserted [where i = 0 and ts = "[Loaded m locals_p]" and m = m and w = w2
          and w' = w' and locals_p = locals_p and p = p and pol = pol]
      have s3: "step pol (w2, [Loaded m locals_p]) (w', [Returned_inserted p])"
        by simp
      from s1 have "rtranclp (step pol) (w, [At_start m]) (w1, [Missed m])"
        by (rule r_into_rtranclp)
      from this s2 have "rtranclp (step pol) (w, [At_start m]) (w2, [Loaded m locals_p])"
        by (rule rtranclp.rtrancl_into_rtrancl)
      from this s3 have "rtranclp (step pol) (w, [At_start m]) (w', [Returned_inserted p])"
        by (rule rtranclp.rtrancl_into_rtrancl)
      then show ?thesis by simp
    qed
  qed
qed

lemma find_cached_fields:
  "fst (find_cached m w) = method_vars w m"
  "method_vars (snd (find_cached m w)) = method_vars w"
  "heap (snd (find_cached m w)) = heap w"
  "next_ptr (snd (find_cached m w)) = next_ptr w"
  by (simp_all add: find_cached_def emit_def)

lemma LoadEntry_example_fields:
  "fst (LoadEntry jvmti_example None 7 w) = Some (next_ptr w)"
  "method_vars (snd (LoadEntry jvmti_example None 7 w)) = method_vars w"
  "next_ptr (snd (LoadEntry jvmti_example None 7 w)) = Suc (next_ptr w)"
  "dom (heap (snd (LoadEntry jvmti_example None 7 w))) = insert (next_ptr w) (dom (heap w))"
proof -
  obtain e where e: "fst (LoadEntry_fill jvmti_example None 7 Entry_new) = Some e"
    using LoadEntry_fill_examples(3) by blast
  note l = LoadEntry_loaded [OF e, of w]
  show "fst (LoadEntry jvmti_example None 7 w) = Some (next_ptr w)"
    "method_vars (snd (LoadEntry jvmti_example None 7 w)) = method_vars w"
    "next_ptr (snd (LoadEntry jvmti_example None 7 w)) = Suc (next_ptr w)"
    "dom (heap (snd (LoadEntry jvmti_example None 7 w))) = insert (next_ptr w) (dom (heap w))"
    by (simp_all add: l)
qed

lemma race_missed_fields:
  "method_vars race_missed = Map.empty" "next_ptr race_missed = 0" "heap race_missed = Map.empty"
  by (simp_all add: race_missed_def find_cached_fields world_init_def)

lemma race_loaded_fields:
  "method_vars race_loaded = Map.empty" "next_ptr race_loaded = 2"
  "dom (heap race_loaded) = {0, 1}"
  by (auto simp: race_loaded_def LoadEntry_example_fields race_missed_fields)

lemma race_first_inserted_fields:
  "insert_loaded 7 0 race_loaded = (0, race_first_inserted)"
  "method_vars race_first_inserted = [7 \<mapsto> 0]"
  by (simp_all add: race_first_inserted_def insert_loaded_absent race_loaded_fields emit_def)

lemma race_reachable:
  "rtranclp (step None) (world_init, replicate 2 (At_start 7))
     (race_first_inserted, [Returned_inserted 0, Loaded 7 1])"
proof -
  let ?w1 = "snd (find_cached 7 world_init)"
  let ?w3 = "snd (LoadEntry jvmti_example None 7 race_missed)"
  have s1: "step None (world_init, [At_start 7, At_start 7]) (?w1, [Missed 7, At_start 7])"
    using step.miss [where i = 0 and ts = "[At_start 7, At_start 7]" and m = 7
        and w = world_init and w' = ?w1 and pol = None]
    by (simp add: find_cached_def world_init_def)
  have s2: "step None (?w1, [Missed 7, At_start 7]) (race_missed, [Missed 7, Missed 7])"
    using step.miss [where i = 1 and ts = "[Missed 7, At_start 7]" and m = 7
        and w = ?w1 and w' = race_missed and pol = None]
    by (simp add: race_missed_def find_cached_def world_init_def emit_def)
  have s3: "step None (race_missed, [Missed 7, Missed 7]) (?w3, [Loaded 7 0, Missed 7])"
    using step.loaded [where i = 0 and ts = "[Missed 7, Missed 7]" and m = 7
        and w = race_missed and w' = ?w3 and pol = None and jvmti = jvmti_example
        and locals_p = 0]
      LoadEntry_example_fields(1) [of race_missed]
    by (simp add: race_missed_fields prod_eq_iff)
  have s4: "step None (?w3, [Loaded 7 0, Missed 7]) (race_loaded, [Loaded 7 0, Loaded 7 1])"
    using step.loaded [where i = 1 and ts = "[Loaded 7 0, Missed 7]" and m = 7
        and w = ?w3 and w' = race_loaded and pol = None and jvmti = jvmti_example
        and locals_p = 1]
      LoadEntry_example_fields(1) [of ?w3]
    by (simp add: race_loaded_def LoadEntry_example_fields race_missed_fields prod_eq_iff)
  have s5: "step None (race_loaded, [Loaded 7 0, Loaded 7 1])
      (race_first_inserted, [Returned_inserted 0, Loaded 7 1])"
    using step.inserted [where i = 0 and ts = "[Loaded 7 0, Loaded 7 1]" and m = 7
        and w = race_loaded and w' = race_first_inserted and pol = None and locals_p = 0
        and p = 0]
    by (simp add: race_first_inserted_fields)
  have init: "replicate 2 (At_start 7) = [At_start 7, At_start 7]"
    by (simp add: numeral_2_eq_2)
  from s1 have "rtranclp (step None) (world_init, [At_start 7, At_start 7])
      (?w1, [Missed 7, At_start 7])"
    by (rule r_into_rtranclp)
  from this s2 have "rtranclp (step None) (world_init, [At_start 7, At_start 7])
      (race_missed, [Missed 7, Missed 7])"
    by (rule rtranclp.rtrancl_into_rtrancl)
  from this s3 have "rtranclp (step None) (world_init, [At_start 7, At_start 7])
      (?w3, [Loaded 7 0, Missed 7])"
    by (rule rtranclp.rtrancl_into_rtrancl)
  from this s4 have "rtranclp (step None) (world_init, [At_start 7, At_start 7])
      (race_loaded, [Loaded 7 0, Loaded 7 1])"
    by (rule rtranclp.rtrancl_into_rtrancl)
  from this s5 show ?thesis
    unfolding init by (rule rtranclp.rtrancl_into_rtrancl)
qed


subsection \<open>The instance descriptor\<close>

lemma LoadLocalInstance_cases:
  "(\<forall>mods. GetMethodModifiers jvmti method = (JVMTI_ERROR_NONE, mods) \<and>
        mods AND JVM_ACC_STATIC \<noteq> 0 \<longrightarrow>
      fst (LoadLocalInstance jvmti cls method) = None) \<and>
   (\<forall>mods sig gen. GetMethodModifiers jvmti method = (JVMTI_ERROR_NONE, mods) \<and>
        mods AND JVM_ACC_STATIC = 0 \<and>
        GetClassSignature jvmti cls = (JVMTI_ERROR_NONE, sig, gen) \<longrightarrow>
      fst (LoadLocalInstance jvmti cls method) =
        Some \<lparr>lv_entry =
                \<lparr>start_location = 0, length_v = - 1, name = ''this'', signature = sig,
                 generic_signature = gen, slot = 0\<rparr>,
              is_argument = True\<rparr>) \<and>
   (\<forall>err. err \<noteq> JVMTI_ERROR_NONE \<and>
        (Jvmti_GetMethodModifiers method err \<in> set (snd (LoadLocalInstance jvmti cls method)) \<or>
         Jvmti_GetClassSignature cls err \<in> set (snd (LoadLocalInstance jvmti cls method))) \<longrightarrow>
      fst (LoadLocalInstance jvmti cls method) = None) \<and>
   (case LoadEntry jvmti pol method w of
      (r, w1) \<Rightarrow>
        \<forall>p. r = Some p \<longrightarrow>
          (\<exists>e. heap w1 p = Some e \<and>
             local_instance e =
               fst (LoadLocalInstance jvmti (snd (GetMethodDeclaringClass jvmti method)) method))) \<and>
   (\<forall>mm cs.
      map_option locals
        (fst (LoadEntry_fill (jvmti\<lparr>GetMethodModifiers := mm, GetClassSignature := cs\<rparr>) pol
           method Entry_new)) =
      map_option locals (fst (LoadEntry_fill jvmti pol method Entry_new)))"
proof -
  have static: "fst (LoadLocalInstance jvmti cls method) = None"
    if "GetMethodModifiers jvmti method = (JVMTI_ERROR_NONE, mods)"
      and "mods AND JVM_ACC_STATIC \<noteq> 0" for mods
    using that by (simp add: LoadLocalInstance_def)
  have this_ptr: "fst (LoadLocalInstance jvmti cls method) =
        Some \<lparr>lv_entry =
                \<lparr>start_location = 0, length_v = - 1, name = ''this'', signature = sig,
                 generic_signature = gen, slot = 0\<rparr>,
              is_argument = True\<rparr>"
    if "GetMethodModifiers jvmti method = (JVMTI_ERROR_NONE, mods)"
      and "mods AND JVM_ACC_STATIC = 0"
      and "GetClassSignature jvmti cls = (JVMTI_ERROR_NONE, sig, gen)" for mods sig gen
    using that by (simp add: LoadLocalInstance_def JvmLocalVariableReader_def)
  have failing: "fst (LoadLocalInstance jvmti cls method) = None"
    if "err \<noteq> JVMTI_ERROR_NONE"
      and "Jvmti_GetMethodModifiers method err \<in> set (snd (LoadLocalInstance jvmti cls method)) \<or>
         Jvmti_GetClassSignature cls err \<in> set (snd (LoadLocalInstance jvmti cls method))" for err
    using that by (auto simp: LoadLocalInstance_def split: prod.splits if_splits)
  have entry: "case LoadEntry jvmti pol method w of
      (r, w1) \<Rightarrow>
        \<forall>p. r = Some p \<longrightarrow>
          (\<exists>e. heap w1 p = Some e \<and>
             local_instance e =
               fst (LoadLocalInstance jvmti (snd (GetMethodDeclaringClass jvmti method)) method))"
  proof (cases "fst (LoadEntry_fill jvmti pol method Entry_new)")
    case None
    then show ?thesis by (simp add: LoadEntry_failed)
  next
    case (Some e)
    with LoadEntry_fill_Some_cases [OF Some] show ?thesis
      by (simp add: LoadEntry_loaded)
  qed
  from static this_ptr failing entry LoadEntry_fill_locals_indep show ?thesis
    by blast
qed

lemma LoadEntry_fill_instance_calls:
  assumes "GetMethodDeclaringClass jvmti method = (JVMTI_ERROR_NONE, cls)"
  shows "Jvmti_GetMethodModifiers m err \<in> set (snd (LoadEntry_fill jvmti pol method entry0)) \<longleftrightarrow>
      Jvmti_GetMethodModifiers m err \<in> set (snd (LoadLocalInstance jvmti cls method))"
    and "Jvmti_GetClassSignature c err \<in> set (snd (LoadEntry_fill jvmti pol method entry0)) \<longleftrightarrow>
      Jvmti_GetClassSignature c err \<in> set (snd (LoadLocalInstance jvmti cls method))"
  using assms arguments_size_of_calls [of jvmti "method" "snd (GetLocalVariableTable jvmti method)"]
  by (auto simp: LoadEntry_fill_def Let_def split: prod.splits)

lemma LoadLocalInstance_failed_call:
  assumes "err \<noteq> JVMTI_ERROR_NONE"
    and "Jvmti_GetMethodModifiers method err \<in> set (snd (LoadLocalInstance jvmti cls method)) \<or>
         Jvmti_GetClassSignature cls err \<in> set (snd (LoadLocalInstance jvmti cls method))"
  shows "fst (LoadLocalInstance jvmti cls method) = None"
  using assms by (auto simp: LoadLocalInstance_def split: prod.splits if_splits)

lemma LoadEntry_holds_instance:
  assumes cls: "GetMethodDeclaringClass jvmti method = (JVMTI_ERROR_NONE, cls)"
    and path: "visibility_denied pol cls method \<or>
       fst (GetLocalVariableTable jvmti method) = JVMTI_ERROR_NONE \<or>
       fst (GetLocalVariableTable jvmti method) = JVMTI_ERROR_ABSENT_INFORMATION \<or>
       fst (GetLocalVariableTable jvmti method) = JVMTI_ERROR_NATIVE_METHOD"
  shows "case LoadEntry jvmti pol method w of
      (r, w1) \<Rightarrow>
        \<exists>p e. r = Some p \<and> heap w1 p = Some e \<and>
          local_instance e = fst (LoadLocalInstance jvmti cls method) \<and>
          ((\<exists>err. err \<noteq> JVMTI_ERROR_NONE \<and>
              (Jvmti_GetMethodModifiers method err \<in> set (events_since w w1) \<or>
               Jvmti_GetClassSignature cls err \<in> set (events_since w w1))) \<longrightarrow>
           local_instance e = None)"
proof -
  obtain r w1 where L: "LoadEntry jvmti pol method w = (r, w1)"
    by (cases "LoadEntry jvmti pol method w")
  from cls path have "fst (LoadEntry_fill jvmti pol method Entry_new) \<noteq> None"
    by (auto simp: LoadEntry_fill_None_iff)
  then obtain e where e: "fst (LoadEntry_fill jvmti pol method Entry_new) = Some e"
    by blast
  from LoadEntry_result(3) [OF L e]
  have r: "r = Some (next_ptr w)" and obj: "heap w1 (next_ptr w) = Some e"
    by simp_all
  from LoadEntry_fill_Some_cases [OF e] cls
  have inst: "local_instance e = fst (LoadLocalInstance jvmti cls method)"
    by simp
  have ev: "events_since w w1 =
      Call_LoadEntry method # snd (LoadEntry_fill jvmti pol method Entry_new)"
    by (rule LoadEntry_result(1) [OF L])
  have none: "local_instance e = None"
    if "err \<noteq> JVMTI_ERROR_NONE"
      and "Jvmti_GetMethodModifiers method err \<in> set (events_since w w1) \<or>
           Jvmti_GetClassSignature cls err \<in> set (events_since w w1)" for err
  proof -
    from that(2) have "Jvmti_GetMethodModifiers method err \<in>
          set (snd (LoadLocalInstance jvmti cls method)) \<or>
        Jvmti_GetClassSignature cls err \<in> set (snd (LoadLocalInstance jvmti cls method))"
      unfolding ev by (simp add: LoadEntry_fill_instance_calls [OF cls])
    from LoadLocalInstance_failed_call [OF that(1) this] show ?thesis
      by (simp add: inst)
  qed
  from r obj inst none show ?thesis
    unfolding L prod.case by blast
qed


section \<open>Claims\<close>

text \<open>
  C1. In a well-formed state whose cache has no mapping for the method, a call of
  \<^verbatim>\<open>GetLocalVariables\<close> whose load fails returns an entry that did not exist before, is
  empty and is not in the map, which stays as it was; so the next call for the method
  calls \<^verbatim>\<open>LoadEntry\<close> again. After any number of calls whose load fails and one whose
  load succeeds with the entry \<open>e\<close>, the map sends the method to the pointer the last
  call returned, the object there is \<open>e\<close>, and the entries the failed calls returned are
  other objects, empty and not in the map.
\<close>

theorem C1_failed_load_is_not_cached:
  assumes "wf_world w" and "method_vars w method = None"
    and "\<forall>jvmti \<in> set failing. fst (LoadEntry_fill jvmti pol method Entry_new) = None"
    and "fst (LoadEntry_fill ok pol method Entry_new) = Some e"
  shows
    "(\<forall>jvmti \<in> set failing.
        case GetLocalVariables jvmti pol method w of
          (p, w1) \<Rightarrow>
            p \<notin> dom (heap w) \<and> heap w1 p = Some Entry_new \<and>
            method_vars w1 = method_vars w \<and> p \<notin> ran (method_vars w1) \<and>
            (\<forall>jvmti'. Call_LoadEntry method \<in>
               set (events_since w1 (snd (GetLocalVariables jvmti' pol method w1))))) \<and>
     (case GetLocalVariables_calls pol method (failing @ [ok]) w of
        (ps, w') \<Rightarrow>
          length ps = Suc (length failing) \<and>
          method_vars w' = (method_vars w)(method \<mapsto> last ps) \<and>
          heap w' (last ps) = Some e \<and>
          (\<forall>p \<in> set (butlast ps).
             p \<noteq> last ps \<and> p \<notin> dom (heap w) \<and> heap w' p = Some Entry_new \<and>
             p \<notin> ran (method_vars w')))"
proof (rule conjI)
  show "\<forall>jvmti \<in> set failing.
        case GetLocalVariables jvmti pol method w of
          (p, w1) \<Rightarrow>
            p \<notin> dom (heap w) \<and> heap w1 p = Some Entry_new \<and>
            method_vars w1 = method_vars w \<and> p \<notin> ran (method_vars w1) \<and>
            (\<forall>jvmti'. Call_LoadEntry method \<in>
               set (events_since w1 (snd (GetLocalVariables jvmti' pol method w1))))"
  proof
    fix jvmti assume "jvmti \<in> set failing"
    with assms(3) have f: "fst (LoadEntry_fill jvmti pol method Entry_new) = None"
      by simp
    obtain p w1 where G: "GetLocalVariables jvmti pol method w = (p, w1)"
      by (cases "GetLocalVariables jvmti pol method w")
    note call = GetLocalVariables_failed_call [OF assms(1,2) f G]
    show "case GetLocalVariables jvmti pol method w of
          (p, w1) \<Rightarrow>
            p \<notin> dom (heap w) \<and> heap w1 p = Some Entry_new \<and>
            method_vars w1 = method_vars w \<and> p \<notin> ran (method_vars w1) \<and>
            (\<forall>jvmti'. Call_LoadEntry method \<in>
               set (events_since w1 (snd (GetLocalVariables jvmti' pol method w1))))"
      unfolding G prod.case using call by blast
  qed
next
  obtain ps w' where all: "GetLocalVariables_calls pol method (failing @ [ok]) w = (ps, w')"
    by (cases "GetLocalVariables_calls pol method (failing @ [ok]) w")
  note seq = GetLocalVariables_calls_then_loaded [OF assms all]
  show "case GetLocalVariables_calls pol method (failing @ [ok]) w of
        (ps, w') \<Rightarrow>
          length ps = Suc (length failing) \<and>
          method_vars w' = (method_vars w)(method \<mapsto> last ps) \<and>
          heap w' (last ps) = Some e \<and>
          (\<forall>p \<in> set (butlast ps).
             p \<noteq> last ps \<and> p \<notin> dom (heap w) \<and> heap w' p = Some Entry_new \<and>
             p \<notin> ran (method_vars w'))"
    unfolding all prod.case using seq by blast
qed


theorem C1_failed_load_is_not_cached_witness:
  "case GetLocalVariables_calls None 7
       [jvmti_table_error (JVMTI_ERROR_OTHER 113), jvmti_class_error, jvmti_example] world_init of
     (ps, w') \<Rightarrow>
       length ps = 3 \<and> method_vars w' 7 = Some (last ps) \<and>
       heap w' (last ps) = fst (LoadEntry_fill jvmti_example None 7 Entry_new) \<and>
       heap w' (last ps) \<noteq> None \<and>
       heap w' (hd ps) = Some Entry_new \<and> hd ps \<notin> ran (method_vars w')"
proof -
  let ?failing = "[jvmti_table_error (JVMTI_ERROR_OTHER 113), jvmti_class_error]"
  have wf: "wf_world world_init"
    by (simp add: wf_world_def world_init_def)
  have cold: "method_vars world_init 7 = None"
    by (simp add: world_init_def)
  have failing: "\<forall>jvmti \<in> set ?failing. fst (LoadEntry_fill jvmti None 7 Entry_new) = None"
    by (simp add: LoadEntry_fill_examples)
  obtain e where ok: "fst (LoadEntry_fill jvmti_example None 7 Entry_new) = Some e"
    using LoadEntry_fill_examples(3) by blast
  obtain ps w' where all:
    "GetLocalVariables_calls None 7
       [jvmti_table_error (JVMTI_ERROR_OTHER 113), jvmti_class_error, jvmti_example] world_init =
     (ps, w')"
    by (cases "GetLocalVariables_calls None 7
       [jvmti_table_error (JVMTI_ERROR_OTHER 113), jvmti_class_error, jvmti_example] world_init")
  have app: "?failing @ [jvmti_example] =
      [jvmti_table_error (JVMTI_ERROR_OTHER 113), jvmti_class_error, jvmti_example]"
    by simp
  from C1_failed_load_is_not_cached [OF wf cold failing ok, THEN conjunct2]
  have len: "length ps = Suc (length ?failing)"
    and cache: "method_vars w' = (method_vars world_init)(7 \<mapsto> last ps)"
    and obj: "heap w' (last ps) = Some e"
    and earlier: "\<forall>p \<in> set (butlast ps). heap w' p = Some Entry_new \<and> p \<notin> ran (method_vars w')"
    unfolding app all prod.case by blast+
  from len obtain a b c where ps: "ps = [a, b, c]"
    by (auto simp: length_Suc_conv)
  from earlier have "heap w' (hd ps) = Some Entry_new \<and> hd ps \<notin> ran (method_vars w')"
    by (simp add: ps)
  with len cache obj ok have final:
    "length ps = 3 \<and> method_vars w' 7 = Some (last ps) \<and>
       heap w' (last ps) = fst (LoadEntry_fill jvmti_example None 7 Entry_new) \<and>
       heap w' (last ps) \<noteq> None \<and>
       heap w' (hd ps) = Some Entry_new \<and> hd ps \<notin> ran (method_vars w')"
    by simp
  show ?thesis
    unfolding all prod.case by (rule final)
qed

text \<open>
  C2. Any number of threads call \<^verbatim>\<open>GetLocalVariables(H)\<close> at the same time, in a
  well-formed state, and run in any interleaving, the runtime answering each load with
  any result. The map has at most one entry for \<open>H\<close>, being a map. At every moment:
  every thread that returned from the hit or after the insertion returned the one
  pointer the map has for \<open>H\<close>, which is a live object; a thread that returned after a
  failed load holds an empty entry that is not in the map; and when a thread that has
  loaded an entry comes to insert it while the map already has an entry for \<open>H\<close>, its
  own entry is a different object, \<^verbatim>\<open>insert\<close> leaves the map as it is, the thread's entry
  is deleted and the entry of the map is returned, untouched. When the map has none,
  the thread's entry is stored and returned.
\<close>

theorem C2_first_insert_wins:
  assumes "wf_world w0"
    and "rtranclp (step pol) (w0, replicate n (At_start H)) (w, ts)"
  shows "length ts = n \<and> wf_world w \<and>
    (\<forall>i < n. \<forall>p. ts ! i = Returned_hit p \<or> ts ! i = Returned_inserted p \<longrightarrow>
       method_vars w H = Some p \<and> p \<in> dom (heap w)) \<and>
    (\<forall>i < n. \<forall>p. ts ! i = Returned_failure p \<longrightarrow>
       heap w p = Some Entry_new \<and> p \<notin> ran (method_vars w)) \<and>
    (\<forall>i < n. \<forall>m p winner. ts ! i = Loaded m p \<and> method_vars w H = Some winner \<longrightarrow>
       m = H \<and> p \<noteq> winner \<and>
       (case insert_loaded m p w of
          (r, w') \<Rightarrow>
            r = winner \<and> method_vars w' = method_vars w \<and> heap w' p = None \<and>
            heap w' winner = heap w winner \<and> winner \<in> dom (heap w'))) \<and>
    (\<forall>i < n. \<forall>m p. ts ! i = Loaded m p \<and> method_vars w H = None \<longrightarrow>
       m = H \<and>
       (case insert_loaded m p w of
          (r, w') \<Rightarrow>
            r = p \<and> method_vars w' = (method_vars w)(H \<mapsto> p) \<and> heap w' = heap w \<and>
            p \<in> dom (heap w')))"
proof -
  from race_invariant_steps [OF assms(2), of H] race_invariant_init [OF assms(1)]
  have inv: "race_invariant H w ts" and len: "length ts = n"
    by simp_all
  then have wf: "wf_world w"
    by (simp add: race_invariant_def)
  have th: "thread_inv H w ts i (ts ! i)" if "i < n" for i
    using inv that len by (simp add: race_invariant_def)
  have returned: "method_vars w H = Some p \<and> p \<in> dom (heap w)"
    if "i < n" "ts ! i = Returned_hit p \<or> ts ! i = Returned_inserted p" for i p
  proof -
    from th [OF that(1)] that(2) have c: "method_vars w H = Some p"
      by auto
    with wf_world_cached(1) [OF wf c] show ?thesis
      by simp
  qed
  have failed: "heap w p = Some Entry_new \<and> p \<notin> ran (method_vars w)"
    if "i < n" "ts ! i = Returned_failure p" for i p
    using th [OF that(1)] that(2) by simp
  have lost: "m = H \<and> p \<noteq> winner \<and>
       (case insert_loaded m p w of
          (r, w') \<Rightarrow>
            r = winner \<and> method_vars w' = method_vars w \<and> heap w' p = None \<and>
            heap w' winner = heap w winner \<and> winner \<in> dom (heap w'))"
    if "i < n" "ts ! i = Loaded m p \<and> method_vars w H = Some winner" for i m p winner
  proof -
    from th [OF that(1)] that(2) have m: "m = H" and priv: "p \<notin> ran (method_vars w)"
      by simp_all
    from that(2) have c: "method_vars w H = Some winner"
      by simp
    from priv c have ne: "p \<noteq> winner"
      by (auto intro: ranI)
    from wf_world_cached(1) [OF wf c] have "winner \<in> dom (heap w)" .
    with ne c show ?thesis
      by (simp add: m insert_loaded_present emit_def delete_Entry_def)
  qed
  have won: "m = H \<and>
       (case insert_loaded m p w of
          (r, w') \<Rightarrow>
            r = p \<and> method_vars w' = (method_vars w)(H \<mapsto> p) \<and> heap w' = heap w \<and>
            p \<in> dom (heap w'))"
    if "i < n" "ts ! i = Loaded m p \<and> method_vars w H = None" for i m p
    using th [OF that(1)] that(2) by (simp add: insert_loaded_absent emit_def)
  show ?thesis
  proof (intro conjI allI impI)
    show "length ts = n" by (rule len)
    show "wf_world w" by (rule wf)
  next
    fix i p assume "i < n" "ts ! i = Returned_hit p \<or> ts ! i = Returned_inserted p"
    from returned [OF this] show "method_vars w H = Some p" and "p \<in> dom (heap w)"
      by simp_all
  next
    fix i p assume "i < n" "ts ! i = Returned_failure p"
    from failed [OF this] show "heap w p = Some Entry_new" and "p \<notin> ran (method_vars w)"
      by simp_all
  next
    fix i m p winner
    assume "i < n" "ts ! i = Loaded m p \<and> method_vars w H = Some winner"
    from lost [OF this] show "m = H" and "p \<noteq> winner"
      and "case insert_loaded m p w of
          (r, w') \<Rightarrow>
            r = winner \<and> method_vars w' = method_vars w \<and> heap w' p = None \<and>
            heap w' winner = heap w winner \<and> winner \<in> dom (heap w')"
      by auto
  next
    fix i m p
    assume "i < n" "ts ! i = Loaded m p \<and> method_vars w H = None"
    from won [OF this] show "m = H"
      and "case insert_loaded m p w of
          (r, w') \<Rightarrow>
            r = p \<and> method_vars w' = (method_vars w)(H \<mapsto> p) \<and> heap w' = heap w \<and>
            p \<in> dom (heap w')"
      by auto
  qed
qed


theorem C2_first_insert_wins_witness:
  "rtranclp (step None) (world_init, replicate 2 (At_start 7))
     (race_first_inserted, [Returned_inserted 0, Loaded 7 1]) \<and>
   method_vars race_first_inserted 7 = Some 0 \<and>
   0 \<in> dom (heap race_first_inserted) \<and>
   fst (insert_loaded 7 1 race_first_inserted) = 0 \<and>
   method_vars race_second_inserted = method_vars race_first_inserted \<and>
   heap race_second_inserted 1 = None \<and>
   heap race_second_inserted 0 = heap race_first_inserted 0"
proof -
  have wf: "wf_world world_init"
    by (simp add: wf_world_def world_init_def)
  have cached: "method_vars race_first_inserted 7 = Some 0"
    by (simp add: race_first_inserted_fields)
  note c2 = C2_first_insert_wins [OF wf race_reachable]
  have two: "(0::nat) < 2" "(1::nat) < 2"
    by simp_all
  from c2 have "\<forall>i < 2. \<forall>p. [Returned_inserted 0, Loaded 7 1] ! i = Returned_hit p \<or>
        [Returned_inserted 0, Loaded 7 1] ! i = Returned_inserted p \<longrightarrow>
      method_vars race_first_inserted 7 = Some p \<and> p \<in> dom (heap race_first_inserted)"
    by (elim conjE)
  from this [rule_format, OF two(1), of 0] have returned: "0 \<in> dom (heap race_first_inserted)"
    by simp
  from c2 have "\<forall>i < 2. \<forall>m p winner. [Returned_inserted 0, Loaded 7 1] ! i = Loaded m p \<and>
        method_vars race_first_inserted 7 = Some winner \<longrightarrow>
       m = 7 \<and> p \<noteq> winner \<and>
       (case insert_loaded m p race_first_inserted of
          (r, w') \<Rightarrow>
            r = winner \<and> method_vars w' = method_vars race_first_inserted \<and> heap w' p = None \<and>
            heap w' winner = heap race_first_inserted winner \<and> winner \<in> dom (heap w'))"
    by (elim conjE)
  from this [rule_format, OF two(2), of 7 1 0] cached
  have lost: "case insert_loaded 7 1 race_first_inserted of
          (r, w') \<Rightarrow>
            r = 0 \<and> method_vars w' = method_vars race_first_inserted \<and> heap w' 1 = None \<and>
            heap w' 0 = heap race_first_inserted 0 \<and> 0 \<in> dom (heap w')"
    by simp
  from race_reachable cached returned lost show ?thesis
    by (simp add: race_second_inserted_def split_beta)
qed


text \<open>
  C3. The load produces no entry exactly when the declaring-class lookup fails or the
  local-variable-table lookup fails with an error other than ABSENT_INFORMATION and
  NATIVE_METHOD. A lookup fails when the call is made and returns an error, which the
  events of the load record. When the table lookup returns one of those two errors, the
  load produces an entry with no local variables, and a call of \<^verbatim>\<open>GetLocalVariables\<close>
  that misses the cache stores that entry in the map.
\<close>

theorem C3_load_produces_no_entry_iff:
  "case LoadEntry jvmti pol method w of
     (r, w1) \<Rightarrow>
       (r = None \<longleftrightarrow>
          (\<exists>err. err \<noteq> JVMTI_ERROR_NONE \<and>
             Jvmti_GetMethodDeclaringClass method err \<in> set (events_since w w1)) \<or>
          (\<exists>err. err \<noteq> JVMTI_ERROR_NONE \<and> err \<noteq> JVMTI_ERROR_ABSENT_INFORMATION \<and>
             err \<noteq> JVMTI_ERROR_NATIVE_METHOD \<and>
             Jvmti_GetLocalVariableTable method err \<in> set (events_since w w1))) \<and>
       (Jvmti_GetLocalVariableTable method JVMTI_ERROR_ABSENT_INFORMATION \<in> set (events_since w w1) \<or>
        Jvmti_GetLocalVariableTable method JVMTI_ERROR_NATIVE_METHOD \<in> set (events_since w w1) \<longrightarrow>
          (\<exists>p e. r = Some p \<and> heap w1 p = Some e \<and> locals e = []) \<and>
          (method_vars w method = None \<longrightarrow>
             (case GetLocalVariables jvmti pol method w of
                (q, w2) \<Rightarrow> method_vars w2 method = Some q \<and>
                  (\<exists>e. heap w2 q = Some e \<and> locals e = []))))"
proof -
  let ?fill = "LoadEntry_fill jvmti pol method Entry_new"
  obtain r w1 where L: "LoadEntry jvmti pol method w = (r, w1)"
    by (cases "LoadEntry jvmti pol method w")
  have ev: "events_since w w1 = Call_LoadEntry method # snd ?fill"
    by (rule LoadEntry_result(1) [OF L])
  have none: "r = None \<longleftrightarrow> fst ?fill = None"
    using LoadEntry_fst [of jvmti pol "method" w] L by simp
  have iff: "r = None \<longleftrightarrow>
      (\<exists>err. err \<noteq> JVMTI_ERROR_NONE \<and>
         Jvmti_GetMethodDeclaringClass method err \<in> set (events_since w w1)) \<or>
      (\<exists>err. err \<noteq> JVMTI_ERROR_NONE \<and> err \<noteq> JVMTI_ERROR_ABSENT_INFORMATION \<and>
         err \<noteq> JVMTI_ERROR_NATIVE_METHOD \<and>
         Jvmti_GetLocalVariableTable method err \<in> set (events_since w w1))"
    unfolding none ev
    by (simp add: LoadEntry_fill_None_iff LoadEntry_fill_class_call LoadEntry_fill_table_call)
       blast
  have perm: "(\<exists>p e. r = Some p \<and> heap w1 p = Some e \<and> locals e = []) \<and>
      (method_vars w method = None \<longrightarrow>
         (case GetLocalVariables jvmti pol method w of
            (q, w2) \<Rightarrow> method_vars w2 method = Some q \<and>
              (\<exists>e. heap w2 q = Some e \<and> locals e = [])))"
    if t: "Jvmti_GetLocalVariableTable method JVMTI_ERROR_ABSENT_INFORMATION \<in> set (events_since w w1) \<or>
        Jvmti_GetLocalVariableTable method JVMTI_ERROR_NATIVE_METHOD \<in> set (events_since w w1)"
  proof -
    from t have c: "fst (GetMethodDeclaringClass jvmti method) = JVMTI_ERROR_NONE"
      and e: "fst (GetLocalVariableTable jvmti method) = JVMTI_ERROR_ABSENT_INFORMATION \<or>
          fst (GetLocalVariableTable jvmti method) = JVMTI_ERROR_NATIVE_METHOD"
      unfolding ev by (auto simp: LoadEntry_fill_table_call)
    from c e have "fst ?fill \<noteq> None"
      by (auto simp: LoadEntry_fill_None_iff)
    then obtain en where en: "fst ?fill = Some en" by blast
    from e have "locals en = []"
      using LoadEntry_fill_Some_cases [OF en] by (auto simp: Entry_new_def)
    with LoadEntry_result(3) [OF L en] GetLocalVariables_loaded [OF _ en, of w]
    show ?thesis by auto
  qed
  from iff perm show ?thesis unfolding L by simp
qed

theorem C3_load_produces_no_entry_iff_witness:
  "fst (LoadEntry (jvmti_table_error (JVMTI_ERROR_OTHER 113)) None 7 world_init) = None \<and>
   (case GetLocalVariables (jvmti_table_error JVMTI_ERROR_ABSENT_INFORMATION) None 7 world_init of
      (q, w2) \<Rightarrow> method_vars w2 7 = Some q \<and> (\<exists>e. heap w2 q = Some e \<and> locals e = []))"
proof -
  let ?bad = "jvmti_table_error (JVMTI_ERROR_OTHER 113)"
  let ?absent = "jvmti_table_error JVMTI_ERROR_ABSENT_INFORMATION"
  have ev1: "events_since world_init (snd (LoadEntry ?bad None 7 world_init)) =
      [Call_LoadEntry 7, Jvmti_GetMethodDeclaringClass 7 JVMTI_ERROR_NONE,
       Jvmti_GetMethodModifiers 7 JVMTI_ERROR_NONE, Jvmti_GetClassSignature 3 JVMTI_ERROR_NONE,
       Jvmti_GetLocalVariableTable 7 (JVMTI_ERROR_OTHER 113)]"
    by (simp add: LoadEntry_events load_defs example_defs)
  have ev2: "events_since world_init (snd (LoadEntry ?absent None 7 world_init)) =
      [Call_LoadEntry 7, Jvmti_GetMethodDeclaringClass 7 JVMTI_ERROR_NONE,
       Jvmti_GetMethodModifiers 7 JVMTI_ERROR_NONE, Jvmti_GetClassSignature 3 JVMTI_ERROR_NONE,
       Jvmti_GetLocalVariableTable 7 JVMTI_ERROR_ABSENT_INFORMATION]"
    by (simp add: LoadEntry_events load_defs example_defs)
  have cold: "method_vars world_init 7 = None"
    by (simp add: world_init_def)
  from C3_load_produces_no_entry_iff [of 7 world_init ?bad None] ev1
  have "fst (LoadEntry ?bad None 7 world_init) = None"
    by (simp add: split_beta)
  moreover from C3_load_produces_no_entry_iff [of 7 world_init ?absent None] ev2 cold
  have "case GetLocalVariables ?absent None 7 world_init of
      (q, w2) \<Rightarrow> method_vars w2 7 = Some q \<and> (\<exists>e. heap w2 q = Some e \<and> locals e = [])"
    by (simp add: split_beta)
  ultimately show ?thesis by simp
qed


text \<open>
  C4. When the declaring class is resolved and a configured policy denies the visibility
  of local variables for this class and method, the load returns an entry that holds the
  instance descriptor, if \<^verbatim>\<open>LoadLocalInstance\<close> resolved one, and no variables; the
  variable table is not looked up. A call of \<^verbatim>\<open>GetLocalVariables\<close> that misses the cache
  stores this entry, and every later call returns the same entry without calling
  \<^verbatim>\<open>LoadEntry\<close> again, whatever the runtime would answer then.
\<close>

theorem C4_visibility_denied_is_cached:
  assumes "GetMethodDeclaringClass jvmti method = (JVMTI_ERROR_NONE, cls)"
    and "pol = Some policy" and "\<not> policy cls method"
  shows
    "(case LoadEntry jvmti pol method w of
        (r, w1) \<Rightarrow>
          (\<exists>p. r = Some p \<and>
             heap w1 p =
               Some \<lparr>local_instance = fst (LoadLocalInstance jvmti cls method), locals = []\<rparr>) \<and>
          (\<forall>err. Jvmti_GetLocalVariableTable method err \<notin> set (events_since w w1))) \<and>
     (method_vars w method = None \<longrightarrow>
        (case GetLocalVariables jvmti pol method w of
           (p, w1) \<Rightarrow>
             method_vars w1 method = Some p \<and>
             heap w1 p =
               Some \<lparr>local_instance = fst (LoadLocalInstance jvmti cls method), locals = []\<rparr> \<and>
             (\<forall>jvmti'. case GetLocalVariables jvmti' pol method w1 of
                (q, w2) \<Rightarrow>
                  q = p \<and> heap w2 = heap w1 \<and> method_vars w2 = method_vars w1 \<and>
                  Call_LoadEntry method \<notin> set (events_since w1 w2))))"
proof -
  let ?e = "\<lparr>local_instance = fst (LoadLocalInstance jvmti cls method), locals = []\<rparr>"
  from assms have den: "visibility_denied pol cls method"
    by (simp add: visibility_denied_def)
  have fill: "fst (LoadEntry_fill jvmti pol method Entry_new) = Some ?e"
    by (simp add: LoadEntry_fill_denied [OF assms(1) den] Entry_new_def)
  have calls: "snd (LoadEntry_fill jvmti pol method Entry_new) =
      Jvmti_GetMethodDeclaringClass method JVMTI_ERROR_NONE #
        snd (LoadLocalInstance jvmti cls method)"
    by (simp add: LoadEntry_fill_denied [OF assms(1) den])
  have no_table: "Jvmti_GetLocalVariableTable method err \<notin>
      set (snd (LoadEntry_fill jvmti pol method Entry_new))" for err
    using den assms(1) by (simp add: LoadEntry_fill_table_call)
  have first: "case LoadEntry jvmti pol method w of
        (r, w1) \<Rightarrow>
          (\<exists>p. r = Some p \<and> heap w1 p = Some ?e) \<and>
          (\<forall>err. Jvmti_GetLocalVariableTable method err \<notin> set (events_since w w1))"
    using no_table by (simp add: LoadEntry_loaded [OF fill] events_since_def)
  have second: "case GetLocalVariables jvmti pol method w of
           (p, w1) \<Rightarrow>
             method_vars w1 method = Some p \<and> heap w1 p = Some ?e \<and>
             (\<forall>jvmti'. case GetLocalVariables jvmti' pol method w1 of
                (q, w2) \<Rightarrow>
                  q = p \<and> heap w2 = heap w1 \<and> method_vars w2 = method_vars w1 \<and>
                  Call_LoadEntry method \<notin> set (events_since w1 w2))"
    if cold: "method_vars w method = None"
  proof -
    obtain p w1 where G: "GetLocalVariables jvmti pol method w = (p, w1)"
      by (cases "GetLocalVariables jvmti pol method w")
    from GetLocalVariables_loaded [OF cold fill] G
    have stored: "method_vars w1 method = Some p" and obj: "heap w1 p = Some ?e"
      by auto
    from GetLocalVariables_hit [OF stored] show ?thesis
      unfolding G by (simp add: stored obj events_since_def)
  qed
  from first second show ?thesis by blast
qed

theorem C4_visibility_denied_is_cached_witness:
  "(case GetLocalVariables jvmti_example (Some policy_deny_all) 7 world_init of
      (p, w1) \<Rightarrow>
        method_vars w1 7 = Some p \<and>
        heap w1 p =
          Some \<lparr>local_instance =
                  Some \<lparr>lv_entry =
                          \<lparr>start_location = 0, length_v = - 1, name = ''this'',
                           signature = ''LFoo;'', generic_signature = None, slot = 0\<rparr>,
                        is_argument = True\<rparr>,
                locals = []\<rparr> \<and>
        fst (GetLocalVariables (jvmti_table_error (JVMTI_ERROR_OTHER 113))
               (Some policy_deny_all) 7 w1) = p)"
proof -
  have h1: "GetMethodDeclaringClass jvmti_example 7 = (JVMTI_ERROR_NONE, 3)"
    by (simp add: jvmti_example_def)
  have h3: "\<not> policy_deny_all 3 7"
    by (simp add: policy_deny_all_def)
  have cold: "method_vars world_init 7 = None"
    by (simp add: world_init_def)
  have inst: "fst (LoadLocalInstance jvmti_example 3 7) =
      Some \<lparr>lv_entry =
              \<lparr>start_location = 0, length_v = - 1, name = ''this'',
               signature = ''LFoo;'', generic_signature = None, slot = 0\<rparr>,
            is_argument = True\<rparr>"
    by (simp add: load_defs example_defs)
  have h2: "Some policy_deny_all = Some policy_deny_all"
    by simp
  from C4_visibility_denied_is_cached [OF h1 h2 h3, of world_init] cold inst
  show ?thesis
    by (auto simp: split_beta)
qed


text \<open>
  C5. A static method gets no instance descriptor. A method that is not static and whose
  modifiers and class signature resolve gets the descriptor named \<^verbatim>\<open>this\<close> with slot 0,
  start location 0 and length -1 (valid everywhere), marked as an argument. A failed
  lookup of the modifiers or of the class signature gives no descriptor. The entry a
  load produces holds what \<^verbatim>\<open>LoadLocalInstance\<close> returned, and whether the load produces
  an entry, and with which variables, does not depend on what those two lookups answer.
  Whenever the declaring class is resolved and the load is not stopped by an error of
  the variable table (the policy denies visibility, or the table lookup succeeds or
  reports ABSENT_INFORMATION or NATIVE_METHOD), the load returns an entry, that entry
  holds what \<^verbatim>\<open>LoadLocalInstance\<close> returned for the class, and it holds no descriptor when
  the lookup of the modifiers or of the class signature failed during the load.
\<close>

theorem C5_instance_descriptor:
  "((\<forall>mods. GetMethodModifiers jvmti method = (JVMTI_ERROR_NONE, mods) \<and>
        mods AND JVM_ACC_STATIC \<noteq> 0 \<longrightarrow>
      fst (LoadLocalInstance jvmti cls method) = None) \<and>
   (\<forall>mods sig gen. GetMethodModifiers jvmti method = (JVMTI_ERROR_NONE, mods) \<and>
        mods AND JVM_ACC_STATIC = 0 \<and>
        GetClassSignature jvmti cls = (JVMTI_ERROR_NONE, sig, gen) \<longrightarrow>
      fst (LoadLocalInstance jvmti cls method) =
        Some \<lparr>lv_entry =
                \<lparr>start_location = 0, length_v = - 1, name = ''this'', signature = sig,
                 generic_signature = gen, slot = 0\<rparr>,
              is_argument = True\<rparr>) \<and>
   (\<forall>err. err \<noteq> JVMTI_ERROR_NONE \<and>
        (Jvmti_GetMethodModifiers method err \<in> set (snd (LoadLocalInstance jvmti cls method)) \<or>
         Jvmti_GetClassSignature cls err \<in> set (snd (LoadLocalInstance jvmti cls method))) \<longrightarrow>
      fst (LoadLocalInstance jvmti cls method) = None) \<and>
   (case LoadEntry jvmti pol method w of
      (r, w1) \<Rightarrow>
        \<forall>p. r = Some p \<longrightarrow>
          (\<exists>e. heap w1 p = Some e \<and>
             local_instance e =
               fst (LoadLocalInstance jvmti (snd (GetMethodDeclaringClass jvmti method)) method))) \<and>
   (\<forall>mm cs.
      map_option locals
        (fst (LoadEntry_fill (jvmti\<lparr>GetMethodModifiers := mm, GetClassSignature := cs\<rparr>) pol
           method Entry_new)) =
      map_option locals (fst (LoadEntry_fill jvmti pol method Entry_new)))) \<and>
   (GetMethodDeclaringClass jvmti method = (JVMTI_ERROR_NONE, cls) \<and>
    (visibility_denied pol cls method \<or>
     fst (GetLocalVariableTable jvmti method) = JVMTI_ERROR_NONE \<or>
     fst (GetLocalVariableTable jvmti method) = JVMTI_ERROR_ABSENT_INFORMATION \<or>
     fst (GetLocalVariableTable jvmti method) = JVMTI_ERROR_NATIVE_METHOD) \<longrightarrow>
      (case LoadEntry jvmti pol method w of
         (r, w1) \<Rightarrow>
           \<exists>p e. r = Some p \<and> heap w1 p = Some e \<and>
             local_instance e = fst (LoadLocalInstance jvmti cls method) \<and>
             ((\<exists>err. err \<noteq> JVMTI_ERROR_NONE \<and>
                 (Jvmti_GetMethodModifiers method err \<in> set (events_since w w1) \<or>
                  Jvmti_GetClassSignature cls err \<in> set (events_since w w1))) \<longrightarrow>
              local_instance e = None)))"
proof (rule conjI)
  show "(\<forall>mods. GetMethodModifiers jvmti method = (JVMTI_ERROR_NONE, mods) \<and>
        mods AND JVM_ACC_STATIC \<noteq> 0 \<longrightarrow>
      fst (LoadLocalInstance jvmti cls method) = None) \<and>
   (\<forall>mods sig gen. GetMethodModifiers jvmti method = (JVMTI_ERROR_NONE, mods) \<and>
        mods AND JVM_ACC_STATIC = 0 \<and>
        GetClassSignature jvmti cls = (JVMTI_ERROR_NONE, sig, gen) \<longrightarrow>
      fst (LoadLocalInstance jvmti cls method) =
        Some \<lparr>lv_entry =
                \<lparr>start_location = 0, length_v = - 1, name = ''this'', signature = sig,
                 generic_signature = gen, slot = 0\<rparr>,
              is_argument = True\<rparr>) \<and>
   (\<forall>err. err \<noteq> JVMTI_ERROR_NONE \<and>
        (Jvmti_GetMethodModifiers method err \<in> set (snd (LoadLocalInstance jvmti cls method)) \<or>
         Jvmti_GetClassSignature cls err \<in> set (snd (LoadLocalInstance jvmti cls method))) \<longrightarrow>
      fst (LoadLocalInstance jvmti cls method) = None) \<and>
   (case LoadEntry jvmti pol method w of
      (r, w1) \<Rightarrow>
        \<forall>p. r = Some p \<longrightarrow>
          (\<exists>e. heap w1 p = Some e \<and>
             local_instance e =
               fst (LoadLocalInstance jvmti (snd (GetMethodDeclaringClass jvmti method)) method))) \<and>
   (\<forall>mm cs.
      map_option locals
        (fst (LoadEntry_fill (jvmti\<lparr>GetMethodModifiers := mm, GetClassSignature := cs\<rparr>) pol
           method Entry_new)) =
      map_option locals (fst (LoadEntry_fill jvmti pol method Entry_new)))"
    by (rule LoadLocalInstance_cases)
next
  show "GetMethodDeclaringClass jvmti method = (JVMTI_ERROR_NONE, cls) \<and>
    (visibility_denied pol cls method \<or>
     fst (GetLocalVariableTable jvmti method) = JVMTI_ERROR_NONE \<or>
     fst (GetLocalVariableTable jvmti method) = JVMTI_ERROR_ABSENT_INFORMATION \<or>
     fst (GetLocalVariableTable jvmti method) = JVMTI_ERROR_NATIVE_METHOD) \<longrightarrow>
      (case LoadEntry jvmti pol method w of
         (r, w1) \<Rightarrow>
           \<exists>p e. r = Some p \<and> heap w1 p = Some e \<and>
             local_instance e = fst (LoadLocalInstance jvmti cls method) \<and>
             ((\<exists>err. err \<noteq> JVMTI_ERROR_NONE \<and>
                 (Jvmti_GetMethodModifiers method err \<in> set (events_since w w1) \<or>
                  Jvmti_GetClassSignature cls err \<in> set (events_since w w1))) \<longrightarrow>
              local_instance e = None))"
  proof
    assume h: "GetMethodDeclaringClass jvmti method = (JVMTI_ERROR_NONE, cls) \<and>
      (visibility_denied pol cls method \<or>
       fst (GetLocalVariableTable jvmti method) = JVMTI_ERROR_NONE \<or>
       fst (GetLocalVariableTable jvmti method) = JVMTI_ERROR_ABSENT_INFORMATION \<or>
       fst (GetLocalVariableTable jvmti method) = JVMTI_ERROR_NATIVE_METHOD)"
    show "case LoadEntry jvmti pol method w of
         (r, w1) \<Rightarrow>
           \<exists>p e. r = Some p \<and> heap w1 p = Some e \<and>
             local_instance e = fst (LoadLocalInstance jvmti cls method) \<and>
             ((\<exists>err. err \<noteq> JVMTI_ERROR_NONE \<and>
                 (Jvmti_GetMethodModifiers method err \<in> set (events_since w w1) \<or>
                  Jvmti_GetClassSignature cls err \<in> set (events_since w w1))) \<longrightarrow>
              local_instance e = None)"
      by (rule LoadEntry_holds_instance [OF conjunct1 [OF h] conjunct2 [OF h]])
  qed
qed

theorem C5_instance_descriptor_witness:
  "fst (LoadLocalInstance jvmti_static 3 7) = None \<and>
   fst (LoadLocalInstance jvmti_example 3 7) =
     Some \<lparr>lv_entry =
             \<lparr>start_location = 0, length_v = - 1, name = ''this'', signature = ''LFoo;'',
              generic_signature = None, slot = 0\<rparr>,
           is_argument = True\<rparr> \<and>
   fst (LoadLocalInstance jvmti_signature_error 3 7) = None \<and>
   (\<exists>p e. fst (LoadEntry jvmti_static None 7 world_init) = Some p \<and>
      heap (snd (LoadEntry jvmti_static None 7 world_init)) p = Some e \<and>
      local_instance e = None) \<and>
   (\<exists>p e. fst (LoadEntry jvmti_example None 7 world_init) = Some p \<and>
      heap (snd (LoadEntry jvmti_example None 7 world_init)) p = Some e \<and>
      local_instance e =
        Some \<lparr>lv_entry =
                \<lparr>start_location = 0, length_v = - 1, name = ''this'', signature = ''LFoo;'',
                 generic_signature = None, slot = 0\<rparr>,
              is_argument = True\<rparr>) \<and>
   (\<exists>p e. fst (LoadEntry jvmti_signature_error None 7 world_init) = Some p \<and>
      heap (snd (LoadEntry jvmti_signature_error None 7 world_init)) p = Some e \<and>
      local_instance e = None)"
proof -
  have m9: "GetMethodModifiers jvmti_static 7 = (JVMTI_ERROR_NONE, 9) \<and>
      (9 :: jint) AND JVM_ACC_STATIC \<noteq> 0"
    by (simp add: jvmti_static_def jvmti_example_def JVM_ACC_STATIC_def)
  have m1: "GetMethodModifiers jvmti_example 7 = (JVMTI_ERROR_NONE, 1) \<and>
      (1 :: jint) AND JVM_ACC_STATIC = 0 \<and>
      GetClassSignature jvmti_example 3 = (JVMTI_ERROR_NONE, ''LFoo;'', None)"
    by (simp add: jvmti_example_def JVM_ACC_STATIC_def)
  have sig: "Jvmti_GetClassSignature 3 (JVMTI_ERROR_OTHER 21) \<in>
      set (snd (LoadLocalInstance jvmti_signature_error 3 7))"
    by (simp add: jvmti_signature_error_def jvmti_example_def LoadLocalInstance_def
        JVM_ACC_STATIC_def)
  have path: "GetMethodDeclaringClass jvmti_static 7 = (JVMTI_ERROR_NONE, 3) \<and>
      fst (GetLocalVariableTable jvmti_static 7) = JVMTI_ERROR_NONE"
    "GetMethodDeclaringClass jvmti_example 7 = (JVMTI_ERROR_NONE, 3) \<and>
      fst (GetLocalVariableTable jvmti_example 7) = JVMTI_ERROR_NONE"
    "GetMethodDeclaringClass jvmti_signature_error 7 = (JVMTI_ERROR_NONE, 3) \<and>
      fst (GetLocalVariableTable jvmti_signature_error 7) = JVMTI_ERROR_NONE"
    by (simp_all add: jvmti_static_def jvmti_signature_error_def jvmti_example_def)
  note c5_static = C5_instance_descriptor [of jvmti_static 7 3 None world_init]
  note c5_example = C5_instance_descriptor [of jvmti_example 7 3 None world_init]
  note c5_sig = C5_instance_descriptor [of jvmti_signature_error 7 3 None world_init]
  from c5_static m9 have a: "fst (LoadLocalInstance jvmti_static 3 7) = None"
    by blast
  from c5_example m1 have b: "fst (LoadLocalInstance jvmti_example 3 7) =
     Some \<lparr>lv_entry =
             \<lparr>start_location = 0, length_v = - 1, name = ''this'', signature = ''LFoo;'',
              generic_signature = None, slot = 0\<rparr>,
           is_argument = True\<rparr>"
    by blast
  from c5_sig sig have c: "fst (LoadLocalInstance jvmti_signature_error 3 7) = None"
    by blast
  from c5_static [THEN conjunct2] path(1) a
  have d: "\<exists>p e. fst (LoadEntry jvmti_static None 7 world_init) = Some p \<and>
      heap (snd (LoadEntry jvmti_static None 7 world_init)) p = Some e \<and>
      local_instance e = None"
    by (auto simp: split_beta)
  from c5_example [THEN conjunct2] path(2) b
  have e: "\<exists>p e. fst (LoadEntry jvmti_example None 7 world_init) = Some p \<and>
      heap (snd (LoadEntry jvmti_example None 7 world_init)) p = Some e \<and>
      local_instance e =
        Some \<lparr>lv_entry =
                \<lparr>start_location = 0, length_v = - 1, name = ''this'', signature = ''LFoo;'',
                 generic_signature = None, slot = 0\<rparr>,
              is_argument = True\<rparr>"
    by (auto simp: split_beta)
  have ev: "Jvmti_GetClassSignature 3 (JVMTI_ERROR_OTHER 21) \<in>
      set (events_since world_init (snd (LoadEntry jvmti_signature_error None 7 world_init)))"
    by (simp add: LoadEntry_events load_defs example_defs jvmti_signature_error_def)
  have other: "JVMTI_ERROR_OTHER 21 \<noteq> JVMTI_ERROR_NONE"
    by simp
  from c5_sig [THEN conjunct2] path(3) ev other
  have f: "\<exists>p e. fst (LoadEntry jvmti_signature_error None 7 world_init) = Some p \<and>
      heap (snd (LoadEntry jvmti_signature_error None 7 world_init)) p = Some e \<and>
      local_instance e = None"
    by (fastforce simp: split_beta)
  from a b c d e f show ?thesis
    by (intro conjI)
qed

text \<open>
  C6. When the variable table was fetched successfully, the load produces an entry whose
  variable list has one descriptor for each raw entry, in the order of the table, marked
  as an argument exactly when its slot is less than the argument-slot count. When
  \<^verbatim>\<open>GetArgumentsSize\<close> returns an error the count is zero and the load still produces the
  entry; every variable is then a local, the slots of a table being non-negative. (For
  an empty table \<^verbatim>\<open>GetArgumentsSize\<close> is not called, and the list is empty.)
\<close>

theorem C6_arguments_and_locals:
  assumes "LoadEntry jvmti pol method w = (r, w1)"
    and "Jvmti_GetLocalVariableTable method JVMTI_ERROR_NONE \<in> set (events_since w w1)"
    and "GetArgumentsSize jvmti method = (err, n)"
  shows "\<exists>p e. r = Some p \<and> heap w1 p = Some e \<and>
      (err = JVMTI_ERROR_NONE \<longrightarrow>
         locals e =
           map (\<lambda>v. JvmLocalVariableReader v (sint (slot v) < sint n))
             (snd (GetLocalVariableTable jvmti method))) \<and>
      (err \<noteq> JVMTI_ERROR_NONE \<longrightarrow>
         locals e =
           map (\<lambda>v. JvmLocalVariableReader v (sint (slot v) < 0))
             (snd (GetLocalVariableTable jvmti method)) \<and>
         ((\<forall>v \<in> set (snd (GetLocalVariableTable jvmti method)). 0 \<le> sint (slot v)) \<longrightarrow>
            (\<forall>d \<in> set (locals e). \<not> is_argument d)))"
proof -
  let ?table = "snd (GetLocalVariableTable jvmti method)"
  from assms(1,2) have reached:
    "fst (GetLocalVariableTable jvmti method) = JVMTI_ERROR_NONE"
    "fst (GetMethodDeclaringClass jvmti method) = JVMTI_ERROR_NONE"
    "\<not> visibility_denied pol (snd (GetMethodDeclaringClass jvmti method)) method"
    by (simp_all add: LoadEntry_result(1) LoadEntry_fill_table_call)
  then have "fst (LoadEntry_fill jvmti pol method Entry_new) \<noteq> None"
    by (simp add: LoadEntry_fill_None_iff)
  then obtain e where e: "fst (LoadEntry_fill jvmti pol method Entry_new) = Some e"
    by blast
  from LoadEntry_result(3) [OF assms(1) e]
  have r: "r = Some (next_ptr w)" and obj: "heap w1 (next_ptr w) = Some e"
    by simp_all
  from LoadEntry_fill_Some_cases [OF e] reached
  have loc: "locals e =
      map (\<lambda>v. JvmLocalVariableReader v
             (sint (slot v) < sint (fst (arguments_size_of jvmti method ?table)))) ?table"
    by (simp add: Entry_new_def)
  have ok: "locals e = map (\<lambda>v. JvmLocalVariableReader v (sint (slot v) < sint n)) ?table"
    if "err = JVMTI_ERROR_NONE"
    using that assms(3) loc by (cases "?table = []") (simp_all add: arguments_size_of_def)
  have bad: "locals e = map (\<lambda>v. JvmLocalVariableReader v (sint (slot v) < 0)) ?table"
    if "err \<noteq> JVMTI_ERROR_NONE"
    using that assms(3) loc by (cases "?table = []") (simp_all add: arguments_size_of_def)
  have all_locals: "\<forall>d \<in> set (locals e). \<not> is_argument d"
    if "err \<noteq> JVMTI_ERROR_NONE" and "\<forall>v \<in> set ?table. 0 \<le> sint (slot v)"
    using that(2) by (auto simp: bad [OF that(1)] JvmLocalVariableReader_def)
  from r obj ok bad all_locals show ?thesis
    by blast
qed

theorem C6_arguments_and_locals_witness:
  "(\<exists>p e. fst (LoadEntry jvmti_example None 7 world_init) = Some p \<and>
      heap (snd (LoadEntry jvmti_example None 7 world_init)) p = Some e \<and>
      map lv_entry (locals e) = table_example \<and>
      map is_argument (locals e) = [True, True, False, False]) \<and>
   (\<exists>p e. fst (LoadEntry jvmti_size_error None 7 world_init) = Some p \<and>
      heap (snd (LoadEntry jvmti_size_error None 7 world_init)) p = Some e \<and>
      map lv_entry (locals e) = table_example \<and>
      map is_argument (locals e) = [False, False, False, False])"
proof -
  have ev: "Jvmti_GetLocalVariableTable 7 JVMTI_ERROR_NONE \<in>
      set (events_since world_init (snd (LoadEntry jvmti_example None 7 world_init)))"
    by (simp add: LoadEntry_events load_defs example_defs)
  have ev': "Jvmti_GetLocalVariableTable 7 JVMTI_ERROR_NONE \<in>
      set (events_since world_init (snd (LoadEntry jvmti_size_error None 7 world_init)))"
    by (simp add: LoadEntry_events load_defs example_defs jvmti_size_error_def)
  have size_ok: "GetArgumentsSize jvmti_example 7 = (JVMTI_ERROR_NONE, 2)"
    by (simp add: jvmti_example_def)
  have size_bad: "GetArgumentsSize jvmti_size_error 7 = (JVMTI_ERROR_OTHER 23, 0)"
    by (simp add: jvmti_size_error_def)
  have tables: "snd (GetLocalVariableTable jvmti_example 7) = table_example"
    "snd (GetLocalVariableTable jvmti_size_error 7) = table_example"
    by (simp_all add: jvmti_size_error_def jvmti_example_def)
  from C6_arguments_and_locals [OF surjective_pairing ev size_ok]
  have a: "\<exists>p e. fst (LoadEntry jvmti_example None 7 world_init) = Some p \<and>
      heap (snd (LoadEntry jvmti_example None 7 world_init)) p = Some e \<and>
      map lv_entry (locals e) = table_example \<and>
      map is_argument (locals e) = [True, True, False, False]"
    by (auto simp: tables JvmLocalVariableReader_def comp_def table_example_def)
  from C6_arguments_and_locals [OF surjective_pairing ev' size_bad]
  have b: "\<exists>p e. fst (LoadEntry jvmti_size_error None 7 world_init) = Some p \<and>
      heap (snd (LoadEntry jvmti_size_error None 7 world_init)) p = Some e \<and>
      map lv_entry (locals e) = table_example \<and>
      map is_argument (locals e) = [False, False, False, False]"
    by (auto simp: tables JvmLocalVariableReader_def comp_def table_example_def)
  from a b show ?thesis by blast
qed


text \<open>
  C7. \<^verbatim>\<open>Debugger::JvmtiOnCompiledMethodUnload\<close> forwards the event to the call-stack
  tracker, to the cache and to the breakpoints manager, in this order. Afterwards the
  cache has no mapping for the method and is otherwise as before; when it had no mapping
  for the method it is unchanged. The next \<^verbatim>\<open>GetLocalVariables\<close> for the method calls
  \<^verbatim>\<open>LoadEntry\<close> and returns a newly allocated entry (in a well-formed state: not the one
  that was cached, nor any other that existed), filled from what the runtime answers now.
\<close>

theorem C7_unload_then_fresh_load:
  "(let w1 = Debugger_JvmtiOnCompiledMethodUnload method w in
      events_since w w1 =
        [EvalCallStack_JvmtiOnCompiledMethodUnload method, Map_erase method,
         BreakpointsManager_JvmtiOnCompiledMethodUnload method] \<and>
      method_vars w1 method = None \<and>
      method_vars w1 = (method_vars w)(method := None) \<and>
      (method_vars w method = None \<longrightarrow> method_vars w1 = method_vars w) \<and>
      heap w1 = heap w \<and> next_ptr w1 = next_ptr w \<and>
      (case GetLocalVariables jvmti pol method w1 of
         (p, w2) \<Rightarrow>
           Call_LoadEntry method \<in> set (events_since w1 w2) \<and>
           (wf_world w \<longrightarrow> p \<notin> dom (heap w) \<and> method_vars w method \<noteq> Some p) \<and>
           (case fst (LoadEntry_fill jvmti pol method Entry_new) of
              None \<Rightarrow> heap w2 p = Some Entry_new \<and> method_vars w2 method = None
            | Some e \<Rightarrow> heap w2 p = Some e \<and> method_vars w2 method = Some p)))"
proof -
  define w1 where "w1 = Debugger_JvmtiOnCompiledMethodUnload method w"
  have w1: "method_vars w1 = (method_vars w)(method := None)" "heap w1 = heap w"
    "next_ptr w1 = next_ptr w"
    "events_since w w1 =
        [EvalCallStack_JvmtiOnCompiledMethodUnload method, Map_erase method,
         BreakpointsManager_JvmtiOnCompiledMethodUnload method]"
    by (simp_all add: w1_def Debugger_JvmtiOnCompiledMethodUnload_def
        JvmtiOnCompiledMethodUnload_def emit_def events_since_def)
  have noop: "method_vars w1 = method_vars w" if "method_vars w method = None"
    using that by (auto simp: w1)
  have miss: "method_vars w1 method = None"
    by (simp add: w1)
  obtain p w2 where G: "GetLocalVariables jvmti pol method w1 = (p, w2)"
    by (cases "GetLocalVariables jvmti pol method w1")
  have load: "Call_LoadEntry method \<in> set (events_since w1 w2)"
    using GetLocalVariables_events [of w1 jvmti pol "method"] miss by (simp add: G)
  have p: "next_ptr w \<le> p"
    using G miss by (auto simp: GetLocalVariables_result w1 split: option.splits)
  have fresh: "p \<notin> dom (heap w) \<and> method_vars w method \<noteq> Some p" if "wf_world w"
    using wf_world_fresh [OF that p] by (auto intro: ranI)
  have outcome: "case fst (LoadEntry_fill jvmti pol method Entry_new) of
              None \<Rightarrow> heap w2 p = Some Entry_new \<and> method_vars w2 method = None
            | Some e \<Rightarrow> heap w2 p = Some e \<and> method_vars w2 method = Some p"
    using G miss by (auto simp: GetLocalVariables_result split: option.splits)
  from w1 noop miss load fresh outcome show ?thesis
    unfolding Let_def w1_def [symmetric] G by simp
qed

theorem C7_unload_then_fresh_load_witness:
  "method_vars world_example 8 = Some 0 \<and>
   method_vars (Debugger_JvmtiOnCompiledMethodUnload 8 world_example) 8 = None \<and>
   fst (GetLocalVariables jvmti_example None 8
          (Debugger_JvmtiOnCompiledMethodUnload 8 world_example)) \<noteq> 0 \<and>
   Call_LoadEntry 8 \<in>
     set (events_since (Debugger_JvmtiOnCompiledMethodUnload 8 world_example)
            (snd (GetLocalVariables jvmti_example None 8
               (Debugger_JvmtiOnCompiledMethodUnload 8 world_example))))"
  using C7_unload_then_fresh_load [of 8 world_example jvmti_example None] wf_world_example
  by (auto simp: Let_def split_beta world_example_cache)

text \<open>
  C8. The destructor of \<^verbatim>\<open>Debugger\<close> calls \<^verbatim>\<open>breakpoints_manager_->Cleanup()\<close> and then
  \<^verbatim>\<open>class_indexer_.Cleanup()\<close>: these are the two events it adds, the first before the
  second.
\<close>

theorem C8_destructor_order:
  "events_since w (Debugger_destructor w) = [BreakpointsManager_Cleanup, ClassIndexer_Cleanup] \<and>
   precedes BreakpointsManager_Cleanup ClassIndexer_Cleanup
     (events_since w (Debugger_destructor w))"
  by (simp add: Debugger_destructor_def emit_def events_since_def)

theorem C8_destructor_order_witness:
  "precedes BreakpointsManager_Cleanup ClassIndexer_Cleanup
     (trace (Debugger_destructor world_init))"
  using C8_destructor_order [of world_init]
  by (simp add: events_since_def world_init_def)

text \<open>
  C9. The claim asks for the removal in the unload handler to happen under the lock.
  \<^verbatim>\<open>MethodLocals::JvmtiOnCompiledMethodUnload\<close> erases from the map without taking
  \<^verbatim>\<open>mu_\<close>: its only event is the erase, so the discipline that \<^verbatim>\<open>GetLocalVariables\<close>
  keeps (lemma \<open>GetLocalVariables_mutex_discipline\<close>: the map is read and written
  with the mutex held, \<^verbatim>\<open>LoadEntry\<close> and the JVMTI calls run with it released) is broken
  by the handler.
\<close>

theorem C9_unload_erases_without_mutex:
  "events_since world_init (JvmtiOnCompiledMethodUnload 7 world_init) = [Map_erase 7] \<and>
   \<not> mutex_discipline False (events_since world_init (JvmtiOnCompiledMethodUnload 7 world_init)) \<and>
   mutex_discipline False
     (events_since world_init (snd (GetLocalVariables jvmti_example None 7 world_init)))"
proof -
  have erase: "events_since world_init (JvmtiOnCompiledMethodUnload 7 world_init) = [Map_erase 7]"
    by (simp add: JvmtiOnCompiledMethodUnload_def emit_def events_since_def)
  have get: "mutex_discipline False
     (events_since world_init (snd (GetLocalVariables jvmti_example None 7 world_init)))"
    by (rule GetLocalVariables_mutex_discipline)
  from get show ?thesis
    by (simp add: erase)
qed

text \<open>
  C10. For a handle other than the one passed, \<^verbatim>\<open>GetLocalVariables\<close> and the unload
  handler of the cache leave the mapping as it was: \<^verbatim>\<open>GetLocalVariables\<close> leaves the map
  unchanged or adds the mapping of its own handle to the entry it returns, and in a
  well-formed state leaves the entry of the other handle untouched; the unload handler
  removes the mapping of its own handle and nothing else.
\<close>

theorem C10_other_handles_unchanged:
  assumes "method' \<noteq> method"
  shows
    "(case GetLocalVariables jvmti pol method w of
        (p, w1) \<Rightarrow>
          method_vars w1 method' = method_vars w method' \<and>
          (method_vars w1 = method_vars w \<or>
           method_vars w method = None \<and> method_vars w1 = (method_vars w)(method \<mapsto> p)) \<and>
          (\<forall>q. wf_world w \<and> method_vars w method' = Some q \<longrightarrow> heap w1 q = heap w q)) \<and>
     (let w1 = JvmtiOnCompiledMethodUnload method w in
        method_vars w1 method' = method_vars w method' \<and>
        method_vars w1 = (method_vars w)(method := None) \<and>
        heap w1 = heap w)"
proof -
  have stays: "q \<noteq> next_ptr w \<and> q \<noteq> Suc (next_ptr w)"
    if "wf_world w" and "method_vars w method' = Some q" for q
    using wf_world_cached(2) [OF that] by simp
  have get: "case GetLocalVariables jvmti pol method w of
        (p, w1) \<Rightarrow>
          method_vars w1 method' = method_vars w method' \<and>
          (method_vars w1 = method_vars w \<or>
           method_vars w method = None \<and> method_vars w1 = (method_vars w)(method \<mapsto> p)) \<and>
          (\<forall>q. wf_world w \<and> method_vars w method' = Some q \<longrightarrow> heap w1 q = heap w q)"
    using assms stays
    by (auto simp: GetLocalVariables_result emit_def split: option.splits)
  have unload: "let w1 = JvmtiOnCompiledMethodUnload method w in
        method_vars w1 method' = method_vars w method' \<and>
        method_vars w1 = (method_vars w)(method := None) \<and>
        heap w1 = heap w"
    using assms by (simp add: JvmtiOnCompiledMethodUnload_def emit_def)
  from get unload show ?thesis by simp
qed


theorem C10_other_handles_unchanged_witness:
  "method_vars world_example 8 = Some 0 \<and>
   method_vars (snd (GetLocalVariables jvmti_example None 7 world_example)) 8 = Some 0 \<and>
   method_vars (snd (GetLocalVariables jvmti_example None 7 world_example)) 7 = Some 1 \<and>
   heap (snd (GetLocalVariables jvmti_example None 7 world_example)) 0 = heap world_example 0 \<and>
   method_vars (JvmtiOnCompiledMethodUnload 7 world_example) 8 = Some 0"
proof -
  have ne: "(8 :: jmethodID) \<noteq> 7"
    by simp
  have cached: "method_vars world_example 8 = Some 0"
    by (simp add: world_example_cache)
  have stored: "method_vars (snd (GetLocalVariables jvmti_example None 7 world_example)) 7 = Some 1"
    by (simp add: GetLocalVariables_result world_example_cache load_defs example_defs
        split: option.splits)
  from C10_other_handles_unchanged [OF ne, where jvmti = jvmti_example and pol = None and w = world_example]
    cached stored wf_world_example
  show ?thesis
    by (auto simp: split_beta Let_def world_example_cache)
qed


end
